theory Spec2Isabelle
  imports Main "HOL-Library.AList"
begin

section \<open>Habit records: data model\<close>

text \<open>
  The embedded program is \<^verbatim>\<open>habit_tracker.py\<close>. Python strings are modelled as
  \<^typ>\<open>string\<close>, read as sequences of code points below 256; where a record is written
  and read back they are lists of all code points, and the two models are shown to agree
  on the texts they share. Python integers are \<^typ>\<open>int\<close>. Every \<^verbatim>\<open>assert\<close> and every exception of the source is a branch
  returning \<open>Inl\<close> of an \<open>error\<close>.
\<close>

datatype Result = GOOD | BAD | UNKNOWN

text \<open>
  The source raises \<^verbatim>\<open>AssertionError\<close> at every failed \<^verbatim>\<open>assert\<close>; the constructors
  below tell the assertion sites apart (source line in brackets):
  \<^item> \<open>NotFoundError\<close>: the assertions of the lookups: no directory \<^verbatim>\<open>habits\<close> [66, 79],
    no file of that id [80], no habit with the title [74];
  \<^item> \<open>AmbiguousTitleError\<close>: more than one habit with the title [71];
  \<^item> \<open>CorruptRecordError\<close>: the assertions of \<^verbatim>\<open>_read_habit\<close> [85, 88], of
    \<^verbatim>\<open>Result.from_str\<close> [29], and the \<^verbatim>\<open>IndexError\<close> of \<^verbatim>\<open>lines[1]\<close> [85] and
    \<^verbatim>\<open>lines[second_sep_idx + 1]\<close> [92];
  \<^item> \<open>CorruptStateError\<close>: \<^verbatim>\<open>assert len(series) <= num_days + 1\<close> [147];
  \<^item> \<open>AlreadyMarkedError\<close>: \<^verbatim>\<open>assert num_missing_days > 0\<close> [164];
  \<^item> \<open>BackfillRequiredError\<close>: \<^verbatim>\<open>assert num_missing_days == 1\<close> [165];
  \<^item> \<open>CountMismatchError\<close>: the assertion of \<^verbatim>\<open>mark_missing_days\<close> [169];
  \<^item> \<open>ArgumentError\<close>: the assertions on the arguments of \<^verbatim>\<open>find\<close> [133, 136];
  \<^item> \<open>ValueError\<close>: \<^verbatim>\<open>int\<close> or \<^verbatim>\<open>datetime\<close> rejecting a string [37, 60];
  \<^item> \<open>FileNotFoundError\<close>: \<^verbatim>\<open>os.listdir\<close> [57] or \<^verbatim>\<open>os.remove\<close> [185, 191] on a missing
    path;
  \<^item> \<open>SystemExit\<close>: \<^verbatim>\<open>exit(1)\<close> [189];
  \<^item> \<open>UnicodeEncodeError\<close>: \<^verbatim>\<open>f.write\<close> of a text that the encoding of the file does
    not have [108--113].
\<close>

datatype error =
    NotFoundError
  | AmbiguousTitleError
  | CorruptRecordError
  | CorruptStateError
  | AlreadyMarkedError
  | BackfillRequiredError
  | CountMismatchError
  | ArgumentError
  | ValueError
  | FileNotFoundError
  | SystemExit
  | UnicodeEncodeError

text \<open>
  The clock and the \<^verbatim>\<open>datetime\<close> library are the environment of the program. A
  \<^verbatim>\<open>datetime\<close> at midnight is represented by its day number (its proleptic Gregorian
  ordinal), so that \<^verbatim>\<open>(today - start_date).days\<close> is the difference of two integers:
  \<^item> \<open>today\<close> is the value of \<^verbatim>\<open>_get_today()\<close>;
  \<^item> \<open>today_str\<close> is the value of \<^verbatim>\<open>_get_today_str()\<close>;
  \<^item> \<open>str_to_date s\<close> is the value of \<^verbatim>\<open>_str_to_date(s)\<close>, \<open>None\<close> when \<^verbatim>\<open>int\<close> or
    \<^verbatim>\<open>datetime\<close> raises.
\<close>

record env =
  today :: int
  today_str :: string
  str_to_date :: "string \<Rightarrow> int option"

text \<open>The fields of a \<^verbatim>\<open>Habit\<close> object, as \<^verbatim>\<open>__init__\<close> sets them.\<close>

record Habit =
  habit_id :: string
  title :: string
  description :: string
  start_date_str :: string
  series :: "Result list"

section \<open>Missing-day accounting\<close>

text \<open>\<^verbatim>\<open>Habit._get_num_missing_days\<close> (static method, lines 141--153).\<close>

definition get_num_missing_days_static ::
  "env \<Rightarrow> string \<Rightarrow> Result list \<Rightarrow> bool \<Rightarrow> error + int" where
  "get_num_missing_days_static E sd_str srs including_today =
     (case str_to_date E sd_str of
        None \<Rightarrow> Inl ValueError
      | Some start_date \<Rightarrow>
          (let num_days = today E - start_date in
           if \<not> int (length srs) \<le> num_days + 1 then Inl CorruptStateError
           else if including_today then Inr (num_days - int (length srs) + 1)
           else if int (length srs) = num_days + 1 then Inr 0
           else Inr (num_days - int (length srs))))"

text \<open>\<^verbatim>\<open>Habit.get_num_missing_days\<close> (lines 172--173).\<close>

definition get_num_missing_days :: "env \<Rightarrow> Habit \<Rightarrow> bool \<Rightarrow> error + int" where
  "get_num_missing_days E h including_today =
     get_num_missing_days_static E (start_date_str h) (series h) including_today"

text \<open>
  \<^verbatim>\<open>Habit.mark_today\<close> (lines 162--166). The object is mutated in place; the model
  returns the updated object.
\<close>

definition mark_today :: "env \<Rightarrow> Habit \<Rightarrow> Result \<Rightarrow> error + Habit" where
  "mark_today E h result =
     (case get_num_missing_days E h True of
        Inl e \<Rightarrow> Inl e
      | Inr num_missing_days \<Rightarrow>
          if \<not> num_missing_days > 0 then Inl AlreadyMarkedError
          else if \<not> num_missing_days = 1 then Inl BackfillRequiredError
          else Inr (h\<lparr>series := series h @ [result]\<rparr>))"

text \<open>\<^verbatim>\<open>Habit.mark_missing_days\<close> (lines 168--170).\<close>

definition mark_missing_days :: "env \<Rightarrow> Habit \<Rightarrow> Result list \<Rightarrow> bool \<Rightarrow> error + Habit" where
  "mark_missing_days E h results including_today =
     (case get_num_missing_days E h including_today of
        Inl e \<Rightarrow> Inl e
      | Inr n \<Rightarrow>
          if \<not> n = int (length results) then Inl CountMismatchError
          else Inr (h\<lparr>series := series h @ results\<rparr>))"

text \<open>\<^verbatim>\<open>Habit.is_today_marked\<close> (lines 175--176).\<close>

definition is_today_marked :: "env \<Rightarrow> Habit \<Rightarrow> error + bool" where
  "is_today_marked E h =
     (case get_num_missing_days E h True of
        Inl e \<Rightarrow> Inl e
      | Inr n \<Rightarrow> Inr (n = 0))"

text \<open>
  The series-length invariant of the data model,
  \<^verbatim>\<open>len(series) <= (today - startDate).days + 1\<close>, for a start date with day number \<open>d\<close>.
\<close>

definition series_inv :: "env \<Rightarrow> int \<Rightarrow> Result list \<Rightarrow> bool" where
  "series_inv E d srs = (int (length srs) \<le> today E - d + 1)"

text \<open>
  An environment for the examples: the clock reads 2024-01-04 (day 738889), and the two
  date strings of the examples parse to their day numbers.
\<close>

definition example_env :: env where
  "example_env =
     \<lparr>today = 738889, today_str = ''2024-1-4'',
      str_to_date = (\<lambda>s. if s = ''2024-1-1'' then Some 738886
                          else if s = ''2024-1-5'' then Some 738890
                          else None)\<rparr>"

definition example_habit :: "Result list \<Rightarrow> Habit" where
  "example_habit srs =
     \<lparr>habit_id = ''0'', title = ''Read'', description = ''Ten pages'',
      start_date_str = ''2024-1-1'', series = srs\<rparr>"

section \<open>Strings of the Python library\<close>

text \<open>
  The characters at which \<^verbatim>\<open>str.splitlines\<close> ends a line, among the code points below
  256: \<^verbatim>\<open>\n\<close>, \<^verbatim>\<open>\v\<close>, \<^verbatim>\<open>\f\<close>, \<^verbatim>\<open>\r\<close>, \<^verbatim>\<open>\x1c\<close>, \<^verbatim>\<open>\x1d\<close>, \<^verbatim>\<open>\x1e\<close> and \<^verbatim>\<open>\x85\<close>.
\<close>

definition LF :: char where
  "LF = CHR 0x0A"

definition CR :: char where
  "CR = CHR 0x0D"

definition is_line_boundary :: "char \<Rightarrow> bool" where
  "is_line_boundary c =
     (c = LF \<or> c = CHR 0x0B \<or> c = CHR 0x0C \<or> c = CR
      \<or> c = CHR 0x1C \<or> c = CHR 0x1D \<or> c = CHR 0x1E \<or> c = CHR 0x85)"

text \<open>
  \<^verbatim>\<open>str.splitlines()\<close>: the lines without their line ends; \<^verbatim>\<open>\r\n\<close> is one line end, and
  no empty line follows the last line end. \<open>cur\<close> holds the characters of the line being
  read.
\<close>

fun splitlines_from :: "string \<Rightarrow> string \<Rightarrow> string list" where
  "splitlines_from cur [] = (if cur = [] then [] else [cur])"
| "splitlines_from cur [c] = (if is_line_boundary c then [cur] else [cur @ [c]])"
| "splitlines_from cur (c # d # cs) =
     (if c = CR \<and> d = LF then cur # splitlines_from [] cs
      else if is_line_boundary c then cur # splitlines_from [] (d # cs)
      else splitlines_from (cur @ [c]) (d # cs))"

definition splitlines :: "string \<Rightarrow> string list" where
  "splitlines s = splitlines_from [] s"

text \<open>
  Reading a file opened in text mode with the default \<^verbatim>\<open>newline=None\<close>: the line ends
  \<^verbatim>\<open>\r\n\<close> and \<^verbatim>\<open>\r\<close> are translated to \<^verbatim>\<open>\n\<close>. (Writing in text mode leaves the text as it
  is where \<^verbatim>\<open>os.linesep\<close> is \<^verbatim>\<open>\n\<close>.)
\<close>

fun universal_newlines :: "string \<Rightarrow> string" where
  "universal_newlines [] = []"
| "universal_newlines [c] = (if c = CR then [LF] else [c])"
| "universal_newlines (c # d # cs) =
     (if c = CR \<and> d = LF then LF # universal_newlines cs
      else if c = CR then LF # universal_newlines (d # cs)
      else c # universal_newlines (d # cs))"

text \<open>\<^verbatim>\<open>sep.join(xs)\<close>.\<close>

fun join :: "string \<Rightarrow> string list \<Rightarrow> string" where
  "join sep [] = []"
| "join sep [x] = x"
| "join sep (x # y # ys) = x @ sep @ join sep (y # ys)"

text \<open>\<^verbatim>\<open>xs.index(x)\<close>: the first position of \<open>x\<close>, \<open>None\<close> where Python raises \<^verbatim>\<open>ValueError\<close>.\<close>

fun index_of :: "'a \<Rightarrow> 'a list \<Rightarrow> nat option" where
  "index_of x [] = None"
| "index_of x (y # ys) =
     (if y = x then Some 0 else map_option Suc (index_of x ys))"

text \<open>
  \<^verbatim>\<open>str.lower()\<close> on code points below 256: the letters \<^verbatim>\<open>A\<close> to \<^verbatim>\<open>Z\<close> and the
  capital letters \<^verbatim>\<open>U+00C0\<close> to \<^verbatim>\<open>U+00DE\<close> (but not the sign \<^verbatim>\<open>U+00D7\<close>) move up by 32.
\<close>

definition lower_char :: "char \<Rightarrow> char" where
  "lower_char c =
     (let n = (of_char c :: nat) in
      if (65 \<le> n \<and> n \<le> 90) \<or> (192 \<le> n \<and> n \<le> 222 \<and> n \<noteq> 215)
      then char_of (n + 32) else c)"

definition lower :: "string \<Rightarrow> string" where
  "lower s = map lower_char s"

text \<open>\<^verbatim>\<open>str(n)\<close> of an integer: its decimal digits, after a minus sign when negative.\<close>

definition digit_char :: "nat \<Rightarrow> char" where
  "digit_char d = ''0123456789'' ! d"

fun str_nat :: "nat \<Rightarrow> string" where
  "str_nat n = (if n < 10 then [digit_char n] else str_nat (n div 10) @ [digit_char (n mod 10)])"

declare str_nat.simps [simp del]

definition py_str :: "int \<Rightarrow> string" where
  "py_str i = (if i < 0 then CHR ''-'' # str_nat (nat (- i)) else str_nat (nat i))"

text \<open>
  \<^verbatim>\<open>int(s)\<close> of a string, \<open>None\<close> where Python raises \<^verbatim>\<open>ValueError\<close>: white space around,
  an optional sign, then decimal digits with single underscores between them. (The
  limit of CPython on the number of digits is not modelled.)
\<close>

definition is_int_space :: "char \<Rightarrow> bool" where
  "is_int_space c =
     (c = CHR 0x09 \<or> c = LF \<or> c = CHR 0x0B \<or> c = CHR 0x0C \<or> c = CR
      \<or> c = CHR 0x20 \<or> c = CHR 0x85 \<or> c = CHR 0xA0)"

definition strip_int_space :: "string \<Rightarrow> string" where
  "strip_int_space s = rev (dropWhile is_int_space (rev (dropWhile is_int_space s)))"

definition digit_val :: "char \<Rightarrow> nat option" where
  "digit_val c = index_of c ''0123456789''"

fun parse_digits :: "nat \<Rightarrow> string \<Rightarrow> nat option" where
  "parse_digits acc [] = Some acc"
| "parse_digits acc [c] =
     (case digit_val c of None \<Rightarrow> None | Some v \<Rightarrow> Some (10 * acc + v))"
| "parse_digits acc (c # d # cs) =
     (if c = CHR ''_'' then
        (case digit_val d of None \<Rightarrow> None | Some v \<Rightarrow> parse_digits (10 * acc + v) cs)
      else
        (case digit_val c of None \<Rightarrow> None | Some v \<Rightarrow> parse_digits (10 * acc + v) (d # cs)))"

definition parse_unsigned :: "string \<Rightarrow> nat option" where
  "parse_unsigned s =
     (case s of
        [] \<Rightarrow> None
      | c # cs \<Rightarrow> (case digit_val c of None \<Rightarrow> None | Some v \<Rightarrow> parse_digits v cs))"

definition py_int :: "string \<Rightarrow> int option" where
  "py_int s =
     (case strip_int_space s of
        [] \<Rightarrow> None
      | c # cs \<Rightarrow>
          if c = CHR ''-'' then map_option (\<lambda>n. - int n) (parse_unsigned cs)
          else if c = CHR ''+'' then map_option int (parse_unsigned cs)
          else map_option int (parse_unsigned (c # cs)))"

text \<open>\<^verbatim>\<open>max(xs)\<close> of a list, \<open>None\<close> where Python raises \<^verbatim>\<open>ValueError\<close> (no element).\<close>

fun py_max :: "int list \<Rightarrow> int option" where
  "py_max [] = None"
| "py_max (x # xs) = Some (fold max xs x)"

text \<open>A list comprehension over a function that may raise: the first error ends it.\<close>

fun map_result :: "('a \<Rightarrow> error + 'b) \<Rightarrow> 'a list \<Rightarrow> error + 'b list" where
  "map_result f [] = Inr []"
| "map_result f (x # xs) =
     (case f x of
        Inl e \<Rightarrow> Inl e
      | Inr y \<Rightarrow> (case map_result f xs of Inl e \<Rightarrow> Inl e | Inr ys \<Rightarrow> Inr (y # ys)))"

section \<open>Result codes\<close>

text \<open>The \<^verbatim>\<open>value\<close> of a member of the enumeration (lines 16--18).\<close>

fun value_of :: "Result \<Rightarrow> string" where
  "value_of GOOD = ''+''"
| "value_of BAD = ''-''"
| "value_of UNKNOWN = ''?''"

text \<open>\<^verbatim>\<open>Result.from_str\<close> (lines 20--29).\<close>

definition from_str :: "string \<Rightarrow> error + Result" where
  "from_str s =
     (if s = ''+'' then Inr GOOD
      else if s = ''-'' then Inr BAD
      else if s = ''?'' then Inr UNKNOWN
      else Inl CorruptRecordError)"

section \<open>Records on disk\<close>

text \<open>\<^verbatim>\<open>Habit._SEP\<close> (line 52).\<close>

definition SEP :: string where
  "SEP = ''-#-#-#-#-#-#-#-#-#-#-#-#-#-#-#-#-#-#-#-#-''"

text \<open>
  The directory \<^verbatim>\<open>habits\<close>: \<open>None\<close> when it does not exist, otherwise its files in the
  order of \<^verbatim>\<open>os.listdir\<close>, each with the text written to it. A directory holds one
  file of each name.
\<close>

type_synonym storage = "(string \<times> string) list option"

text \<open>
  The body of \<^verbatim>\<open>Habit._read_habit\<close> from line 85 on, over the lines of the file.
  \<^verbatim>\<open>lines[::-1].index(_SEP)\<close> cannot raise after the assertion of line 85; its branch
  is kept.
\<close>

definition parse_record :: "string list \<Rightarrow> error + (string \<times> string \<times> string \<times> Result list)" where
  "parse_record lines =
     (if \<not> 1 < length lines then Inl CorruptRecordError
      else if \<not> lines ! 1 = SEP then Inl CorruptRecordError
      else
        (case index_of SEP (rev lines) of
           None \<Rightarrow> Inl CorruptRecordError
         | Some i \<Rightarrow>
             (let second_sep_idx = length lines - i - 1 in
              if \<not> (second_sep_idx \<noteq> 1 \<and> second_sep_idx \<noteq> 2) then Inl CorruptRecordError
              else
                (let ttl = lines ! 0;
                     descr = join [LF] (drop 2 (take second_sep_idx lines))
                 in
                 if \<not> second_sep_idx + 1 < length lines then Inl CorruptRecordError
                 else
                   (let sd_str = lines ! (second_sep_idx + 1);
                        series_lines = drop (second_sep_idx + 2) lines
                    in
                    if series_lines = [[]] then Inr (ttl, descr, sd_str, [])
                    else
                      (case map_result from_str series_lines of
                         Inl e \<Rightarrow> Inl e
                       | Inr srs \<Rightarrow> Inr (ttl, descr, sd_str, srs)))))))"

text \<open>\<^verbatim>\<open>Habit._read_habit\<close> (lines 77--100).\<close>

definition read_habit :: "storage \<Rightarrow> string \<Rightarrow> error + (string \<times> string \<times> string \<times> Result list)" where
  "read_habit st hid =
     (case st of
        None \<Rightarrow> Inl NotFoundError
      | Some files \<Rightarrow>
          (case map_of files hid of
             None \<Rightarrow> Inl NotFoundError
           | Some text \<Rightarrow> parse_record (splitlines (universal_newlines text))))"

text \<open>The text that \<^verbatim>\<open>Habit._write_habit\<close> writes to the file (lines 108--113).\<close>

definition record_text :: "string \<Rightarrow> string \<Rightarrow> string \<Rightarrow> Result list \<Rightarrow> string" where
  "record_text ttl descr sd_str srs =
     (ttl @ [LF]) @ (SEP @ [LF]) @ (descr @ [LF]) @ (SEP @ [LF]) @ (sd_str @ [LF])
     @ (join [LF] (map value_of srs) @ [LF])"

text \<open>
  \<^verbatim>\<open>Habit._write_habit\<close> (lines 102--113): the directory is made when missing, and the
  file of the id is made or overwritten.
\<close>

definition write_habit :: "storage \<Rightarrow> string \<Rightarrow> string \<Rightarrow> string \<Rightarrow> string \<Rightarrow> Result list \<Rightarrow> storage" where
  "write_habit st hid ttl descr sd_str srs =
     (let files = (case st of None \<Rightarrow> [] | Some fs \<Rightarrow> fs)
      in Some (AList.update hid (record_text ttl descr sd_str srs) files))"

section \<open>Identifiers and lookup\<close>

text \<open>\<^verbatim>\<open>Habit._find_latest_habit_id\<close> (lines 54--60).\<close>

definition find_latest_habit_id :: "storage \<Rightarrow> error + string" where
  "find_latest_habit_id st =
     (case st of
        None \<Rightarrow> Inl FileNotFoundError
      | Some files \<Rightarrow>
          (let habit_ids = map fst files in
           if length habit_ids = 0 then Inr ''-1''
           else
             (case map_result (\<lambda>s. case py_int s of None \<Rightarrow> Inl ValueError | Some n \<Rightarrow> Inr n)
                     habit_ids of
                Inl e \<Rightarrow> Inl e
              | Inr ns \<Rightarrow>
                  (case py_max ns of None \<Rightarrow> Inl ValueError | Some m \<Rightarrow> Inr (py_str m)))))"

text \<open>
  The loop of \<^verbatim>\<open>Habit._find_habit_id\<close> (lines 68--72) over the ids still to visit, with
  the value of \<^verbatim>\<open>desired_habit_id\<close>.
\<close>

fun find_habit_id_loop :: "storage \<Rightarrow> string \<Rightarrow> string list \<Rightarrow> string option \<Rightarrow> error + string option" where
  "find_habit_id_loop st ttl [] desired_habit_id = Inr desired_habit_id"
| "find_habit_id_loop st ttl (hid # habit_ids) desired_habit_id =
     (case read_habit st hid of
        Inl e \<Rightarrow> Inl e
      | Inr (found_title, _) \<Rightarrow>
          if lower found_title = lower ttl then
            (if \<not> desired_habit_id = None then Inl AmbiguousTitleError
             else find_habit_id_loop st ttl habit_ids (Some hid))
          else find_habit_id_loop st ttl habit_ids desired_habit_id)"

text \<open>\<^verbatim>\<open>Habit._find_habit_id\<close> (lines 62--75).\<close>

definition find_habit_id :: "storage \<Rightarrow> string \<Rightarrow> error + string" where
  "find_habit_id st ttl =
     (case st of
        None \<Rightarrow> Inl NotFoundError
      | Some files \<Rightarrow>
          (case find_habit_id_loop st ttl (map fst files) None of
             Inl e \<Rightarrow> Inl e
           | Inr None \<Rightarrow> Inl NotFoundError
           | Inr (Some desired_habit_id) \<Rightarrow> Inr desired_habit_id))"

text \<open>
  \<^verbatim>\<open>Habit.create\<close> (lines 115--128) returns the new object; the storage changes only by
  the directory being made.
\<close>

definition create ::
  "env \<Rightarrow> storage \<Rightarrow> string \<Rightarrow> string \<Rightarrow> string option \<Rightarrow> Result list option
     \<Rightarrow> error + (Habit \<times> storage)" where
  "create E st ttl descr sd_opt series_opt =
     (let st' = (case st of None \<Rightarrow> Some [] | Some files \<Rightarrow> Some files) in
      case find_latest_habit_id st' of
        Inl e \<Rightarrow> Inl e
      | Inr latest \<Rightarrow>
          (case py_int latest of
             None \<Rightarrow> Inl ValueError
           | Some n \<Rightarrow>
               Inr (\<lparr>habit_id = py_str (n + 1), title = ttl, description = descr,
                      start_date_str = (case sd_opt of None \<Rightarrow> today_str E | Some s \<Rightarrow> s),
                      series = (case series_opt of None \<Rightarrow> [] | Some srs \<Rightarrow> srs)\<rparr>,
                    st')))"

text \<open>\<^verbatim>\<open>Habit.find\<close> (lines 130--139).\<close>

definition find :: "storage \<Rightarrow> string option \<Rightarrow> string option \<Rightarrow> error + Habit" where
  "find st hid_opt ttl_opt =
     (case (case hid_opt of
              None \<Rightarrow> (case ttl_opt of None \<Rightarrow> Inl ArgumentError | Some ttl \<Rightarrow> find_habit_id st ttl)
            | Some hid \<Rightarrow> (case ttl_opt of None \<Rightarrow> Inr hid | Some _ \<Rightarrow> Inl ArgumentError)) of
        Inl e \<Rightarrow> Inl e
      | Inr hid \<Rightarrow>
          (case read_habit st hid of
             Inl e \<Rightarrow> Inl e
           | Inr (ttl, descr, sd_str, srs) \<Rightarrow>
               Inr \<lparr>habit_id = hid, title = ttl, description = descr,
                    start_date_str = sd_str, series = srs\<rparr>))"

text \<open>\<^verbatim>\<open>Habit.save\<close> (lines 178--179).\<close>

definition save :: "storage \<Rightarrow> Habit \<Rightarrow> storage" where
  "save st h = write_habit st (habit_id h) (title h) (description h) (start_date_str h) (series h)"

text \<open>
  \<^verbatim>\<open>Habit.remove\<close> (lines 181--191). \<open>answer\<close> is \<open>None\<close> for \<^verbatim>\<open>prompt=False\<close>, and
  otherwise what the user types at the prompt.
\<close>

definition remove_file :: "storage \<Rightarrow> string \<Rightarrow> error + storage" where
  "remove_file st hid =
     (case st of
        None \<Rightarrow> Inl FileNotFoundError
      | Some files \<Rightarrow>
          if hid \<in> set (map fst files) then Inr (Some (AList.delete hid files))
          else Inl FileNotFoundError)"

definition remove :: "storage \<Rightarrow> Habit \<Rightarrow> string option \<Rightarrow> error + storage" where
  "remove st h answer =
     (case answer of
        None \<Rightarrow> remove_file st (habit_id h)
      | Some typed \<Rightarrow>
          if lower typed = ''y'' then remove_file st (habit_id h) else Inl SystemExit)"

section \<open>Records over all code points\<close>

text \<open>
  A Python string holds Unicode code points, and \<^verbatim>\<open>str.splitlines\<close> also ends a line at
  the code points \<^verbatim>\<open>U+2028\<close> and \<^verbatim>\<open>U+2029\<close>. For writing a record and reading it back,
  a text is therefore a list of code points, each a natural number; the functions of
  the record format are stated once more over such texts. \<open>code_points\<close> gives the code
  points of a text written with characters below 256.
\<close>

type_synonym ustring = "nat list"

definition code_points :: "string \<Rightarrow> ustring" where
  "code_points s = map of_char s"

definition LF_cp :: nat where
  "LF_cp = 0x0A"

definition CR_cp :: nat where
  "CR_cp = 0x0D"

text \<open>
  The line ends of \<^verbatim>\<open>str.splitlines\<close>: \<^verbatim>\<open>\n\<close>, \<^verbatim>\<open>\v\<close>, \<^verbatim>\<open>\f\<close>, \<^verbatim>\<open>\r\<close>, \<^verbatim>\<open>\x1c\<close>, \<^verbatim>\<open>\x1d\<close>,
  \<^verbatim>\<open>\x1e\<close>, \<^verbatim>\<open>\x85\<close>, \<^verbatim>\<open>U+2028\<close> and \<^verbatim>\<open>U+2029\<close>.
\<close>

definition is_line_boundary_cp :: "nat \<Rightarrow> bool" where
  "is_line_boundary_cp c =
     (c = LF_cp \<or> c = 0x0B \<or> c = 0x0C \<or> c = CR_cp \<or> c = 0x1C \<or> c = 0x1D \<or> c = 0x1E
      \<or> c = 0x85 \<or> c = 0x2028 \<or> c = 0x2029)"

text \<open>\<^verbatim>\<open>str.splitlines()\<close>, as \<open>splitlines\<close> above.\<close>

fun splitlines_from_cp :: "ustring \<Rightarrow> ustring \<Rightarrow> ustring list" where
  "splitlines_from_cp cur [] = (if cur = [] then [] else [cur])"
| "splitlines_from_cp cur [c] = (if is_line_boundary_cp c then [cur] else [cur @ [c]])"
| "splitlines_from_cp cur (c # d # cs) =
     (if c = CR_cp \<and> d = LF_cp then cur # splitlines_from_cp [] cs
      else if is_line_boundary_cp c then cur # splitlines_from_cp [] (d # cs)
      else splitlines_from_cp (cur @ [c]) (d # cs))"

definition splitlines_cp :: "ustring \<Rightarrow> ustring list" where
  "splitlines_cp s = splitlines_from_cp [] s"

text \<open>Reading in text mode with \<^verbatim>\<open>newline=None\<close>, as \<open>universal_newlines\<close> above.\<close>

fun universal_newlines_cp :: "ustring \<Rightarrow> ustring" where
  "universal_newlines_cp [] = []"
| "universal_newlines_cp [c] = (if c = CR_cp then [LF_cp] else [c])"
| "universal_newlines_cp (c # d # cs) =
     (if c = CR_cp \<and> d = LF_cp then LF_cp # universal_newlines_cp cs
      else if c = CR_cp then LF_cp # universal_newlines_cp (d # cs)
      else c # universal_newlines_cp (d # cs))"

text \<open>\<^verbatim>\<open>sep.join(xs)\<close>.\<close>

fun join_cp :: "ustring \<Rightarrow> ustring list \<Rightarrow> ustring" where
  "join_cp sep [] = []"
| "join_cp sep [x] = x"
| "join_cp sep (x # y # ys) = x @ sep @ join_cp sep (y # ys)"

text \<open>\<^verbatim>\<open>Habit._SEP\<close> (line 52), the \<^verbatim>\<open>value\<close> of a result and \<^verbatim>\<open>Result.from_str\<close>.\<close>

definition SEP_cp :: ustring where
  "SEP_cp = code_points SEP"

definition value_of_cp :: "Result \<Rightarrow> ustring" where
  "value_of_cp r = code_points (value_of r)"

definition from_str_cp :: "ustring \<Rightarrow> error + Result" where
  "from_str_cp s =
     (if s = code_points ''+'' then Inr GOOD
      else if s = code_points ''-'' then Inr BAD
      else if s = code_points ''?'' then Inr UNKNOWN
      else Inl CorruptRecordError)"

text \<open>The directory \<^verbatim>\<open>habits\<close>, with file names and texts over code points.\<close>

type_synonym ustorage = "(ustring \<times> ustring) list option"

text \<open>The body of \<^verbatim>\<open>Habit._read_habit\<close> from line 85 on, as \<open>parse_record\<close> above.\<close>

definition parse_record_cp ::
  "ustring list \<Rightarrow> error + (ustring \<times> ustring \<times> ustring \<times> Result list)" where
  "parse_record_cp lines =
     (if \<not> 1 < length lines then Inl CorruptRecordError
      else if \<not> lines ! 1 = SEP_cp then Inl CorruptRecordError
      else
        (case index_of SEP_cp (rev lines) of
           None \<Rightarrow> Inl CorruptRecordError
         | Some i \<Rightarrow>
             (let second_sep_idx = length lines - i - 1 in
              if \<not> (second_sep_idx \<noteq> 1 \<and> second_sep_idx \<noteq> 2) then Inl CorruptRecordError
              else
                (let ttl = lines ! 0;
                     descr = join_cp [LF_cp] (drop 2 (take second_sep_idx lines))
                 in
                 if \<not> second_sep_idx + 1 < length lines then Inl CorruptRecordError
                 else
                   (let sd_str = lines ! (second_sep_idx + 1);
                        series_lines = drop (second_sep_idx + 2) lines
                    in
                    if series_lines = [[]] then Inr (ttl, descr, sd_str, [])
                    else
                      (case map_result from_str_cp series_lines of
                         Inl e \<Rightarrow> Inl e
                       | Inr srs \<Rightarrow> Inr (ttl, descr, sd_str, srs)))))))"

text \<open>\<^verbatim>\<open>Habit._read_habit\<close> (lines 77--100).\<close>

definition read_habit_cp ::
  "ustorage \<Rightarrow> ustring \<Rightarrow> error + (ustring \<times> ustring \<times> ustring \<times> Result list)" where
  "read_habit_cp st hid =
     (case st of
        None \<Rightarrow> Inl NotFoundError
      | Some files \<Rightarrow>
          (case map_of files hid of
             None \<Rightarrow> Inl NotFoundError
           | Some text \<Rightarrow> parse_record_cp (splitlines_cp (universal_newlines_cp text))))"


text \<open>
  The calls of \<^verbatim>\<open>f.write\<close> in their order (lines 108--113): each adds its text to the
  file, and the first text with a code point outside the encoding raises
  \<^verbatim>\<open>UnicodeEncodeError\<close>, which ends the writing. The result is the text of the file and
  the error raised, if any.
\<close>

fun write_all :: "(nat \<Rightarrow> bool) \<Rightarrow> ustring list \<Rightarrow> ustring \<times> error option" where
  "write_all enc [] = ([], None)"
| "write_all enc (t # ts) =
     (if \<not> list_all enc t then ([], Some UnicodeEncodeError)
      else (case write_all enc ts of (written, err) \<Rightarrow> (t @ written, err)))"

text \<open>
  \<^verbatim>\<open>Habit._write_habit\<close> (lines 102--113): the directory is made when missing, the file
  of the id is made or emptied, and the six texts are written to it.
\<close>

definition write_habit_cp ::
  "(nat \<Rightarrow> bool) \<Rightarrow> ustorage \<Rightarrow> ustring \<Rightarrow> ustring \<Rightarrow> ustring \<Rightarrow> ustring \<Rightarrow> Result list
     \<Rightarrow> ustorage \<times> error option" where
  "write_habit_cp enc st hid ttl descr sd_str srs =
     (let files = (case st of None \<Rightarrow> [] | Some fs \<Rightarrow> fs) in
      case write_all enc
             [ttl @ [LF_cp], SEP_cp @ [LF_cp], descr @ [LF_cp], SEP_cp @ [LF_cp],
              sd_str @ [LF_cp], join_cp [LF_cp] (map value_of_cp srs) @ [LF_cp]] of
        (written, err) \<Rightarrow> (Some (AList.update hid written files), err))"

subsection \<open>Texts of one line and of several lines\<close>





text \<open>
  The texts with characters below 256 are among the texts over code points: a record,
  and a directory, with such texts.
\<close>

definition record_code_points ::
  "string \<times> string \<times> string \<times> Result list \<Rightarrow> ustring \<times> ustring \<times> ustring \<times> Result list" where
  "record_code_points r =
     (case r of (ttl, descr, sd_str, srs) \<Rightarrow>
        (code_points ttl, code_points descr, code_points sd_str, srs))"

definition storage_code_points :: "storage \<Rightarrow> ustorage" where
  "storage_code_points st =
     map_option (map (\<lambda>(name, text). (code_points name, code_points text))) st"

section \<open>Notions used to state the properties\<close>

subsection \<open>Lines of a record\<close>

text \<open>\<open>k\<close> is the position of the last line equal to the separator.\<close>

definition is_last_sep :: "string list \<Rightarrow> nat \<Rightarrow> bool" where
  "is_last_sep lines k =
     (k < length lines \<and> lines ! k = SEP \<and> SEP \<notin> set (drop (Suc k) lines))"

text \<open>
  The lines after the start date stand for a series: one empty line (the empty series),
  or lines that are each one of the three result codes.
\<close>

definition is_result_line :: "string \<Rightarrow> bool" where
  "is_result_line l = (l = ''+'' \<or> l = ''-'' \<or> l = ''?'')"

definition series_lines_ok :: "string list \<Rightarrow> bool" where
  "series_lines_ok ls = (ls = [[]] \<or> list_all is_result_line ls)"

definition result_of_line :: "string \<Rightarrow> Result" where
  "result_of_line l = (if l = ''+'' then GOOD else if l = ''-'' then BAD else UNKNOWN)"

definition series_of_lines :: "string list \<Rightarrow> Result list" where
  "series_of_lines ls = (if ls = [[]] then [] else map result_of_line ls)"

text \<open>
  Example records: the text of a habit with two results, and a text that ends at its
  second separator.
\<close>

definition example_record :: string where
  "example_record = record_text ''Read'' ''Ten pages'' ''2024-1-1'' [GOOD, BAD]"

definition truncated_record :: string where
  "truncated_record = ''t'' @ [LF] @ SEP @ [LF] @ ''d'' @ [LF] @ SEP @ [LF]"

subsection \<open>Stored identifiers\<close>

text \<open>
  A scenario for the examples: a habit is created and saved at once. Three habits made
  so, from no directory at all, get the ids 0, 1 and 2.
\<close>

definition create_and_save :: "env \<Rightarrow> storage \<Rightarrow> string \<Rightarrow> error + (Habit \<times> storage)" where
  "create_and_save E st ttl =
     (case create E st ttl [] None None of
        Inl e \<Rightarrow> Inl e
      | Inr (h, st') \<Rightarrow> Inr (h, save st' h))"

definition three_habits :: "error + storage" where
  "three_habits =
     (case create_and_save example_env None ''Read'' of
        Inl e \<Rightarrow> Inl e
      | Inr (_, st0) \<Rightarrow>
          (case create_and_save example_env st0 ''Walk'' of
             Inl e \<Rightarrow> Inl e
           | Inr (_, st1) \<Rightarrow>
               (case create_and_save example_env st1 ''Sleep'' of
                  Inl e \<Rightarrow> Inl e
                | Inr (_, st2) \<Rightarrow> Inr st2)))"

text \<open>The names in the directory, and the id of the next habit made after a removal.\<close>

definition stored_ids :: "error + storage \<Rightarrow> string list option" where
  "stored_ids r = (case r of Inr (Some files) \<Rightarrow> Some (map fst files) | _ \<Rightarrow> None)"

definition next_id_after_removal :: "error + storage \<Rightarrow> string \<Rightarrow> string option" where
  "next_id_after_removal r hid =
     (case r of
        Inl e \<Rightarrow> None
      | Inr st \<Rightarrow>
          (case remove_file st hid of
             Inl e \<Rightarrow> None
           | Inr st' \<Rightarrow>
               (case create example_env st' ''Write'' [] None None of
                  Inl e \<Rightarrow> None
                | Inr (h, _) \<Rightarrow> Some (habit_id h))))"

text \<open>A text of decimal digits only.\<close>

definition all_digits :: "string \<Rightarrow> bool" where
  "all_digits s = list_all (\<lambda>c. digit_val c \<noteq> None) s"

text \<open>A directory of three files named 0, 1 and 2.\<close>

definition three_files :: "(string \<times> string) list" where
  "three_files = [(''0'', []), (''1'', []), (''2'', [])]"

subsection \<open>Stored titles\<close>

text \<open>
  Notions used to state the lookup by title: the title stored under an id, the ids (in
  the order of the directory) whose stored title matches a query without regard to case,
  and a storage all of whose records can be read.
\<close>

definition stored_title :: "storage \<Rightarrow> string \<Rightarrow> string option" where
  "stored_title st hid = (case read_habit st hid of Inl e \<Rightarrow> None | Inr (ttl, _) \<Rightarrow> Some ttl)"

definition listing :: "storage \<Rightarrow> string list" where
  "listing st = (case st of None \<Rightarrow> [] | Some files \<Rightarrow> map fst files)"

definition matching_ids :: "storage \<Rightarrow> string \<Rightarrow> string list" where
  "matching_ids st ttl =
     filter (\<lambda>hid. map_option lower (stored_title st hid) = Some (lower ttl)) (listing st)"

definition all_readable :: "storage \<Rightarrow> bool" where
  "all_readable st = list_all (\<lambda>hid. stored_title st hid \<noteq> None) (listing st)"

text \<open>
  A storage for the examples: the habits 0 and 1 have the titles \<^verbatim>\<open>Read\<close> and \<^verbatim>\<open>read\<close>,
  the habit 2 has the title \<^verbatim>\<open>Walk\<close>.
\<close>

definition titled_store :: storage where
  "titled_store =
     save (save (save None (example_habit []))
             ((example_habit [GOOD])\<lparr>habit_id := ''1'', title := ''read''\<rparr>))
       ((example_habit [BAD])\<lparr>habit_id := ''2'', title := ''Walk''\<rparr>)"

section \<open>Properties of the missing-day accounting\<close>

text \<open>
  Claim C1. For a habit whose start date is not after today and whose series is no longer
  than the elapsed days plus one, the missing-day computation returns
  \<open>numDays - len(series) + 1\<close> when today is included; when today is excluded it returns
  0 if \<open>len(series) = numDays + 1\<close> and \<open>numDays - len(series)\<close> otherwise.
\<close>

theorem get_num_missing_days_value:
  assumes "str_to_date E sd_str = Some d"
    and "d \<le> today E"
    and "int (length srs) \<le> today E - d + 1"
  shows "get_num_missing_days_static E sd_str srs True
           = Inr (today E - d - int (length srs) + 1)
       \<and> get_num_missing_days_static E sd_str srs False
           = Inr (if int (length srs) = today E - d + 1 then 0
                  else today E - d - int (length srs))"
  using assms by (simp add: get_num_missing_days_static_def Let_def)

theorem get_num_missing_days_value_witness:
  "str_to_date example_env ''2024-1-1'' = Some 738886
   \<and> (738886 :: int) \<le> today example_env
   \<and> int (length [GOOD, GOOD, BAD]) \<le> today example_env - 738886 + 1
   \<and> get_num_missing_days_static example_env ''2024-1-1'' [GOOD, GOOD, BAD] True = Inr 1
   \<and> get_num_missing_days_static example_env ''2024-1-1'' [GOOD, GOOD, BAD] False = Inr 0"
  using get_num_missing_days_value [of example_env "''2024-1-1''" 738886 "[GOOD, GOOD, BAD]"]
  by (simp add: example_env_def)

text \<open>
  Claim C2, as stated: whenever today strictly precedes the start date, the missing-day
  computation fails, also on an empty series. The source has no check of the two dates:
  one day before the start date \<open>num_days\<close> is \<open>-1\<close>, the assertion
  \<open>len(series) <= num_days + 1\<close> holds for the empty series, and the computation returns
  0; so \<^verbatim>\<open>is_today_marked\<close> answers \<open>True\<close>.
\<close>

theorem before_start_returns_counterexample:
  "str_to_date example_env ''2024-1-5'' = Some 738890
   \<and> today example_env < 738890
   \<and> get_num_missing_days_static example_env ''2024-1-5'' [] True = Inr 0
   \<and> get_num_missing_days_static example_env ''2024-1-5'' [] False = Inr 0
   \<and> is_today_marked example_env ((example_habit []) \<lparr>start_date_str := ''2024-1-5''\<rparr>)
       = Inr True"
  by (simp add: example_env_def example_habit_def get_num_missing_days_static_def
      get_num_missing_days_def is_today_marked_def)

text \<open>
  Claim C2, amended. When today strictly precedes the start date, the missing-day
  computation returns 0 (for either flag) if today is exactly one day before the start
  date and the series is empty; in every other case it fails at the series-length
  assertion, and so do \<^verbatim>\<open>mark_today\<close>, \<^verbatim>\<open>mark_missing_days\<close> and
  \<^verbatim>\<open>is_today_marked\<close>.
\<close>

theorem before_start_behaviour:
  assumes "str_to_date E (start_date_str h) = Some d"
    and "today E < d"
  shows "get_num_missing_days E h inc
           = (if today E = d - 1 \<and> series h = [] then Inr 0 else Inl CorruptStateError)
       \<and> (\<not> (today E = d - 1 \<and> series h = []) \<longrightarrow>
             mark_today E h r = Inl CorruptStateError
           \<and> mark_missing_days E h rs inc = Inl CorruptStateError
           \<and> is_today_marked E h = Inl CorruptStateError)"
proof -
  have len: "0 \<le> int (length (series h))" by simp
  have eq: "(int (length (series h)) \<le> today E - d + 1)
              = (today E = d - 1 \<and> series h = [])"
    using assms(2) by (cases "series h") auto
  show ?thesis
    using assms eq
    by (auto simp add: get_num_missing_days_def get_num_missing_days_static_def Let_def
        mark_today_def mark_missing_days_def is_today_marked_def)
qed

theorem before_start_behaviour_witness:
  "str_to_date example_env (start_date_str ((example_habit [GOOD]) \<lparr>start_date_str := ''2024-1-5''\<rparr>))
     = Some 738890
   \<and> today example_env < 738890
   \<and> get_num_missing_days example_env
        ((example_habit [GOOD]) \<lparr>start_date_str := ''2024-1-5''\<rparr>) True
       = Inl CorruptStateError
   \<and> mark_today example_env
        ((example_habit [GOOD]) \<lparr>start_date_str := ''2024-1-5''\<rparr>) BAD
       = Inl CorruptStateError"
  using before_start_behaviour
    [of example_env "(example_habit [GOOD]) \<lparr>start_date_str := ''2024-1-5''\<rparr>" 738890 True BAD "[]"]
  by (simp add: example_env_def example_habit_def)

text \<open>
  Shared facts: on a state that satisfies the invariant the computation returns the
  two counts of the source; on a state that violates it the assertion fails.
\<close>

lemma missing_including_today:
  assumes "str_to_date E (start_date_str h) = Some d"
    and "series_inv E d (series h)"
  shows "get_num_missing_days E h True = Inr (today E - d - int (length (series h)) + 1)"
  using assms
  by (simp add: get_num_missing_days_def get_num_missing_days_static_def series_inv_def Let_def)

lemma missing_excluding_today:
  assumes "str_to_date E (start_date_str h) = Some d"
    and "series_inv E d (series h)"
  shows "get_num_missing_days E h False
           = Inr (if int (length (series h)) = today E - d + 1 then 0
                  else today E - d - int (length (series h)))"
  using assms
  by (simp add: get_num_missing_days_def get_num_missing_days_static_def series_inv_def Let_def)

lemma missing_invariant_violated:
  assumes "str_to_date E (start_date_str h) = Some d"
    and "\<not> series_inv E d (series h)"
  shows "get_num_missing_days E h inc = Inl CorruptStateError"
  using assms
  by (simp add: get_num_missing_days_def get_num_missing_days_static_def series_inv_def Let_def)

text \<open>
  Claim C3. The series-length invariant is preserved by every mutation: on a state that
  satisfies it (today not before the start date), a successful \<^verbatim>\<open>mark_today\<close> or
  \<^verbatim>\<open>mark_missing_days\<close> leaves a series that satisfies it at the same today, with the
  start date unchanged; and on a state that violates it, every operation that computes
  missing days fails at the series-length assertion.
\<close>

theorem series_inv_preserved:
  assumes "str_to_date E (start_date_str h) = Some d"
  shows "(d \<le> today E \<and> series_inv E d (series h) \<longrightarrow>
            (\<forall>r h'. mark_today E h r = Inr h' \<longrightarrow>
               series_inv E d (series h') \<and> start_date_str h' = start_date_str h)
          \<and> (\<forall>rs inc h'. mark_missing_days E h rs inc = Inr h' \<longrightarrow>
               series_inv E d (series h') \<and> start_date_str h' = start_date_str h))
       \<and> (\<not> series_inv E d (series h) \<longrightarrow>
            get_num_missing_days E h inc = Inl CorruptStateError
          \<and> mark_today E h r = Inl CorruptStateError
          \<and> mark_missing_days E h rs inc = Inl CorruptStateError
          \<and> is_today_marked E h = Inl CorruptStateError)"
proof -
  have today: "series_inv E d (series h') \<and> start_date_str h' = start_date_str h"
    if "series_inv E d (series h)" "mark_today E h r = Inr h'" for r h'
    using that missing_including_today [OF assms that(1)]
    by (auto simp add: mark_today_def series_inv_def split: if_splits)
  have missing: "series_inv E d (series h') \<and> start_date_str h' = start_date_str h"
    if "series_inv E d (series h)" "mark_missing_days E h rs inc = Inr h'" for rs inc h'
  proof (cases inc)
    case True
    then show ?thesis
      using that missing_including_today [OF assms that(1)]
      by (auto simp add: mark_missing_days_def series_inv_def split: if_splits)
  next
    case False
    then show ?thesis
      using that missing_excluding_today [OF assms that(1)]
      by (auto simp add: mark_missing_days_def series_inv_def split: if_splits)
  qed
  have violated: "get_num_missing_days E h inc = Inl CorruptStateError
          \<and> mark_today E h r = Inl CorruptStateError
          \<and> mark_missing_days E h rs inc = Inl CorruptStateError
          \<and> is_today_marked E h = Inl CorruptStateError"
    if "\<not> series_inv E d (series h)"
    using missing_invariant_violated [OF assms that]
    by (simp add: mark_today_def mark_missing_days_def is_today_marked_def)
  show ?thesis
    using today missing violated by blast
qed

theorem series_inv_preserved_witness:
  "str_to_date example_env (start_date_str (example_habit [GOOD, GOOD, BAD])) = Some 738886
   \<and> 738886 \<le> today example_env
   \<and> series_inv example_env 738886 (series (example_habit [GOOD, GOOD, BAD]))
   \<and> mark_today example_env (example_habit [GOOD, GOOD, BAD]) UNKNOWN
       = Inr (example_habit [GOOD, GOOD, BAD, UNKNOWN])
   \<and> series_inv example_env 738886 (series (example_habit [GOOD, GOOD, BAD, UNKNOWN]))
   \<and> mark_missing_days example_env (example_habit []) [GOOD, GOOD, BAD] False
       = Inr (example_habit [GOOD, GOOD, BAD])
   \<and> \<not> series_inv example_env 738886 (series (example_habit [GOOD, GOOD, BAD, BAD, BAD]))
   \<and> mark_today example_env (example_habit [GOOD, GOOD, BAD, BAD, BAD]) GOOD
       = Inl CorruptStateError"
proof -
  have parse: "str_to_date example_env (start_date_str (example_habit srs)) = Some 738886" for srs
    by (simp add: example_env_def example_habit_def)
  have m1: "mark_today example_env (example_habit [GOOD, GOOD, BAD]) UNKNOWN
       = Inr (example_habit [GOOD, GOOD, BAD, UNKNOWN])"
    by (simp add: example_env_def example_habit_def mark_today_def get_num_missing_days_def
        get_num_missing_days_static_def)
  have m2: "mark_missing_days example_env (example_habit []) [GOOD, GOOD, BAD] False
       = Inr (example_habit [GOOD, GOOD, BAD])"
    by (simp add: example_env_def example_habit_def mark_missing_days_def
        get_num_missing_days_def get_num_missing_days_static_def)
  have i0: "738886 \<le> today example_env"
    and i1: "series_inv example_env 738886 (series (example_habit [GOOD, GOOD, BAD]))"
    and i2: "\<not> series_inv example_env 738886 (series (example_habit [GOOD, GOOD, BAD, BAD, BAD]))"
    by (simp_all add: example_env_def example_habit_def series_inv_def)
  from series_inv_preserved [OF parse, of "[GOOD, GOOD, BAD]" True GOOD "[]"] i0 i1 m1
  have "series_inv example_env 738886 (series (example_habit [GOOD, GOOD, BAD, UNKNOWN]))"
    by blast
  moreover from series_inv_preserved [OF parse, of "[GOOD, GOOD, BAD, BAD, BAD]" True GOOD "[]"] i2
  have "mark_today example_env (example_habit [GOOD, GOOD, BAD, BAD, BAD]) GOOD
       = Inl CorruptStateError"
    by blast
  ultimately show ?thesis
    using parse i0 i1 i2 m1 m2 by simp
qed

text \<open>
  Claim C4. On a state that satisfies the invariant (today not before the start date),
  the count of missing days including today is a number \<open>n \<ge> 0\<close>; \<^verbatim>\<open>mark_today\<close> fails
  with \<open>AlreadyMarkedError\<close> when \<open>n = 0\<close>, fails with \<open>BackfillRequiredError\<close> when
  \<open>n > 1\<close>, and when \<open>n = 1\<close> appends the result to the series and changes nothing else;
  after that \<^verbatim>\<open>is_today_marked\<close> is true and a second \<^verbatim>\<open>mark_today\<close> fails with
  \<open>AlreadyMarkedError\<close>.
\<close>

theorem mark_today_cases:
  assumes "str_to_date E (start_date_str h) = Some d"
    and "d \<le> today E"
    and "series_inv E d (series h)"
  shows "\<exists>n. get_num_missing_days E h True = Inr n \<and> 0 \<le> n
          \<and> (n = 0 \<longrightarrow> mark_today E h r = Inl AlreadyMarkedError)
          \<and> (1 < n \<longrightarrow> mark_today E h r = Inl BackfillRequiredError)
          \<and> (n = 1 \<longrightarrow>
                mark_today E h r = Inr (h\<lparr>series := series h @ [r]\<rparr>)
              \<and> is_today_marked E (h\<lparr>series := series h @ [r]\<rparr>) = Inr True
              \<and> mark_today E (h\<lparr>series := series h @ [r]\<rparr>) r' = Inl AlreadyMarkedError)"
proof -
  let ?n = "today E - d - int (length (series h)) + 1"
  let ?h' = "h\<lparr>series := series h @ [r]\<rparr>"
  have n: "get_num_missing_days E h True = Inr ?n"
    by (rule missing_including_today [OF assms(1,3)])
  have nonneg: "0 \<le> ?n"
    using assms(3) by (simp add: series_inv_def)
  have after: "get_num_missing_days E ?h' True = Inr 0" if "?n = 1"
  proof -
    have "str_to_date E (start_date_str ?h') = Some d"
      using assms(1) by simp
    moreover have "series_inv E d (series ?h')"
      using that by (simp add: series_inv_def)
    ultimately have "get_num_missing_days E ?h' True
        = Inr (today E - d - int (length (series ?h')) + 1)"
      by (rule missing_including_today)
    then show ?thesis using that by simp
  qed
  show ?thesis
    using n nonneg after
    by (auto simp add: mark_today_def is_today_marked_def)
qed

theorem mark_today_cases_witness:
  "str_to_date example_env (start_date_str (example_habit [GOOD, GOOD, BAD])) = Some 738886
   \<and> 738886 \<le> today example_env
   \<and> series_inv example_env 738886 (series (example_habit [GOOD, GOOD, BAD]))
   \<and> get_num_missing_days example_env (example_habit [GOOD, GOOD, BAD]) True = Inr 1
   \<and> mark_today example_env (example_habit [GOOD, GOOD, BAD]) UNKNOWN
       = Inr (example_habit [GOOD, GOOD, BAD, UNKNOWN])
   \<and> is_today_marked example_env (example_habit [GOOD, GOOD, BAD, UNKNOWN]) = Inr True
   \<and> mark_today example_env (example_habit [GOOD, GOOD, BAD, UNKNOWN]) GOOD
       = Inl AlreadyMarkedError"
proof -
  have parse: "str_to_date example_env (start_date_str (example_habit srs)) = Some 738886" for srs
    by (simp add: example_env_def example_habit_def)
  have i0: "738886 \<le> today example_env"
    and i1: "series_inv example_env 738886 (series (example_habit [GOOD, GOOD, BAD]))"
    by (simp_all add: example_env_def example_habit_def series_inv_def)
  have n: "get_num_missing_days example_env (example_habit [GOOD, GOOD, BAD]) True = Inr 1"
    by (simp add: example_env_def example_habit_def get_num_missing_days_def
        get_num_missing_days_static_def)
  have upd: "(example_habit [GOOD, GOOD, BAD])\<lparr>series := series (example_habit [GOOD, GOOD, BAD]) @ [UNKNOWN]\<rparr>
      = example_habit [GOOD, GOOD, BAD, UNKNOWN]"
    by (simp add: example_habit_def)
  from mark_today_cases [OF parse i0 i1, of UNKNOWN GOOD] n upd
  have "mark_today example_env (example_habit [GOOD, GOOD, BAD]) UNKNOWN
       = Inr (example_habit [GOOD, GOOD, BAD, UNKNOWN])
     \<and> is_today_marked example_env (example_habit [GOOD, GOOD, BAD, UNKNOWN]) = Inr True
     \<and> mark_today example_env (example_habit [GOOD, GOOD, BAD, UNKNOWN]) GOOD
       = Inl AlreadyMarkedError"
    by auto
  then show ?thesis
    using parse i0 i1 n by simp
qed

text \<open>
  Claim C5. On a state that satisfies the invariant (today not before the start date),
  the missing-day count for the flag is a number \<open>n\<close>; \<^verbatim>\<open>mark_missing_days\<close> fails with
  \<open>CountMismatchError\<close> whenever the number of results differs from \<open>n\<close>, and otherwise
  succeeds with the old series followed by the results in their order; after a successful
  call that includes today, \<^verbatim>\<open>is_today_marked\<close> is true.
\<close>

theorem mark_missing_days_exact:
  assumes "str_to_date E (start_date_str h) = Some d"
    and "d \<le> today E"
    and "series_inv E d (series h)"
  shows "\<exists>n. get_num_missing_days E h inc = Inr n
          \<and> (int (length rs) \<noteq> n \<longrightarrow> mark_missing_days E h rs inc = Inl CountMismatchError)
          \<and> (int (length rs) = n \<longrightarrow>
                mark_missing_days E h rs inc = Inr (h\<lparr>series := series h @ rs\<rparr>)
              \<and> (inc \<longrightarrow> is_today_marked E (h\<lparr>series := series h @ rs\<rparr>) = Inr True))"
proof -
  let ?h' = "h\<lparr>series := series h @ rs\<rparr>"
  obtain n where n: "get_num_missing_days E h inc = Inr n"
    and n_inc: "inc \<Longrightarrow> n = today E - d - int (length (series h)) + 1"
    using missing_including_today [OF assms(1,3)] missing_excluding_today [OF assms(1,3)]
    by (cases inc) auto
  have marked: "is_today_marked E ?h' = Inr True" if "inc" "int (length rs) = n"
  proof -
    have "str_to_date E (start_date_str ?h') = Some d"
      using assms(1) by simp
    moreover have "series_inv E d (series ?h')"
      using that n_inc by (simp add: series_inv_def)
    ultimately have "get_num_missing_days E ?h' True
        = Inr (today E - d - int (length (series ?h')) + 1)"
      by (rule missing_including_today)
    then show ?thesis
      using that n_inc by (simp add: is_today_marked_def)
  qed
  show ?thesis
    using n marked by (auto simp add: mark_missing_days_def)
qed

theorem mark_missing_days_exact_witness:
  "str_to_date example_env (start_date_str (example_habit [GOOD])) = Some 738886
   \<and> 738886 \<le> today example_env
   \<and> series_inv example_env 738886 (series (example_habit [GOOD]))
   \<and> get_num_missing_days example_env (example_habit [GOOD]) True = Inr 3
   \<and> mark_missing_days example_env (example_habit [GOOD]) [BAD, UNKNOWN] True
       = Inl CountMismatchError
   \<and> mark_missing_days example_env (example_habit [GOOD]) [BAD, UNKNOWN, GOOD] True
       = Inr (example_habit [GOOD, BAD, UNKNOWN, GOOD])
   \<and> is_today_marked example_env (example_habit [GOOD, BAD, UNKNOWN, GOOD]) = Inr True"
proof -
  have parse: "str_to_date example_env (start_date_str (example_habit srs)) = Some 738886" for srs
    by (simp add: example_env_def example_habit_def)
  have i0: "738886 \<le> today example_env"
    and i1: "series_inv example_env 738886 (series (example_habit [GOOD]))"
    by (simp_all add: example_env_def example_habit_def series_inv_def)
  have n: "get_num_missing_days example_env (example_habit [GOOD]) True = Inr 3"
    by (simp add: example_env_def example_habit_def get_num_missing_days_def
        get_num_missing_days_static_def)
  have upd: "(example_habit [GOOD])\<lparr>series := series (example_habit [GOOD]) @ [BAD, UNKNOWN, GOOD]\<rparr>
      = example_habit [GOOD, BAD, UNKNOWN, GOOD]"
    by (simp add: example_habit_def)
  from mark_missing_days_exact [OF parse i0 i1, of True "[BAD, UNKNOWN]"] n
  have short: "mark_missing_days example_env (example_habit [GOOD]) [BAD, UNKNOWN] True
       = Inl CountMismatchError"
    by auto
  from mark_missing_days_exact [OF parse i0 i1, of True "[BAD, UNKNOWN, GOOD]"] n upd
  have "mark_missing_days example_env (example_habit [GOOD]) [BAD, UNKNOWN, GOOD] True
       = Inr (example_habit [GOOD, BAD, UNKNOWN, GOOD])
     \<and> is_today_marked example_env (example_habit [GOOD, BAD, UNKNOWN, GOOD]) = Inr True"
    by auto
  then show ?thesis
    using parse i0 i1 n short by simp
qed

text \<open>
  Claim C10. On a state that satisfies the invariant (today not before the start date),
  both missing-day counts are returned; the count including today is not negative; it
  equals the count excluding today when today is recorded (\<open>len(series) = numDays + 1\<close>,
  both counts being 0) and is one more otherwise; and \<^verbatim>\<open>is_today_marked\<close> returns
  whether the count including today is 0.
\<close>

theorem missing_counts_linked:
  assumes "str_to_date E (start_date_str h) = Some d"
    and "d \<le> today E"
    and "series_inv E d (series h)"
  shows "\<exists>a b. get_num_missing_days E h True = Inr a
            \<and> get_num_missing_days E h False = Inr b
            \<and> 0 \<le> a
            \<and> (if int (length (series h)) = today E - d + 1 then a = 0 \<and> b = 0 else a = b + 1)
            \<and> is_today_marked E h = Inr (a = 0)"
  using missing_including_today [OF assms(1,3)] missing_excluding_today [OF assms(1,3)] assms(3)
  by (simp add: is_today_marked_def series_inv_def)

theorem missing_counts_linked_witness:
  "str_to_date example_env (start_date_str (example_habit [GOOD])) = Some 738886
   \<and> 738886 \<le> today example_env
   \<and> series_inv example_env 738886 (series (example_habit [GOOD]))
   \<and> get_num_missing_days example_env (example_habit [GOOD]) True = Inr 3
   \<and> get_num_missing_days example_env (example_habit [GOOD]) False = Inr 2
   \<and> is_today_marked example_env (example_habit [GOOD]) = Inr False"
proof -
  have parse: "str_to_date example_env (start_date_str (example_habit [GOOD])) = Some 738886"
    by (simp add: example_env_def example_habit_def)
  have i0: "738886 \<le> today example_env"
    and i1: "series_inv example_env 738886 (series (example_habit [GOOD]))"
    by (simp_all add: example_env_def example_habit_def series_inv_def)
  have a: "get_num_missing_days example_env (example_habit [GOOD]) True = Inr 3"
    by (simp add: example_env_def example_habit_def get_num_missing_days_def
        get_num_missing_days_static_def)
  from missing_counts_linked [OF parse i0 i1] a
  have "get_num_missing_days example_env (example_habit [GOOD]) False = Inr 2
      \<and> is_today_marked example_env (example_habit [GOOD]) = Inr False"
    by (auto simp add: example_env_def example_habit_def)
  then show ?thesis
    using parse i0 i1 a by simp
qed

section \<open>Properties of the record format\<close>

lemma index_of_Some:
  "index_of x ys = Some i \<Longrightarrow> i < length ys \<and> ys ! i = x \<and> x \<notin> set (take i ys)"
proof (induction ys arbitrary: i)
  case Nil
  then show ?case by simp
next
  case (Cons y ys)
  show ?case
  proof (cases "y = x")
    case True
    with Cons.prems show ?thesis by simp
  next
    case False
    with Cons.prems obtain j where j: "index_of x ys = Some j" "i = Suc j"
      by auto
    from Cons.IH [OF j(1)] False j(2) show ?thesis by simp
  qed
qed

lemma index_of_None: "(index_of x ys = None) = (x \<notin> set ys)"
  by (induction ys) auto

lemma index_of_rev_last:
  assumes "index_of x (rev xs) = Some i"
  shows "i < length xs \<and> xs ! (length xs - i - 1) = x
         \<and> x \<notin> set (drop (Suc (length xs - i - 1)) xs)"
proof -
  from index_of_Some [OF assms]
  have i: "i < length xs" and at: "rev xs ! i = x" and before: "x \<notin> set (take i (rev xs))"
    by simp_all
  have "xs ! (length xs - i - 1) = x"
    using at i by (simp add: rev_nth)
  moreover have "set (take i (rev xs)) = set (drop (length xs - i) xs)"
    by (simp add: take_rev)
  moreover have "Suc (length xs - i - 1) = length xs - i"
    using i by simp
  ultimately show ?thesis
    using i before by simp
qed

lemma last_sep_computed:
  assumes "index_of SEP (rev lines) = Some i"
  shows "is_last_sep lines (length lines - i - 1)"
  using index_of_rev_last [OF assms] by (auto simp add: is_last_sep_def)

lemma is_last_sep_unique:
  assumes "is_last_sep lines k" and "is_last_sep lines k'"
  shows "k = k'"
proof (rule ccontr)
  assume "k \<noteq> k'"
  then consider "k < k'" | "k' < k" by linarith
  then show False
  proof cases
    case 1
    then have "lines ! k' \<in> set (drop (Suc k) lines)"
      using assms(2) by (auto simp add: is_last_sep_def in_set_conv_nth intro!: exI [of _ "k' - Suc k"])
    then show False using assms by (simp add: is_last_sep_def)
  next
    case 2
    then have "lines ! k \<in> set (drop (Suc k') lines)"
      using assms(1) by (auto simp add: is_last_sep_def in_set_conv_nth intro!: exI [of _ "k - Suc k'"])
    then show False using assms by (simp add: is_last_sep_def)
  qed
qed

lemma map_result_from_str:
  "map_result from_str ls
     = (if list_all is_result_line ls then Inr (map result_of_line ls)
        else Inl CorruptRecordError)"
  by (induction ls) (auto simp add: from_str_def is_result_line_def result_of_line_def)

lemma parse_record_at_last_sep:
  assumes len: "1 < length lines"
    and sep: "lines ! 1 = SEP"
    and last: "is_last_sep lines k"
  shows "parse_record lines
           = (if k = 1 \<or> k = 2 \<or> Suc k = length lines
                 \<or> \<not> series_lines_ok (drop (k + 2) lines)
              then Inl CorruptRecordError
              else Inr (lines ! 0, join [LF] (drop 2 (take k lines)), lines ! Suc k,
                        series_of_lines (drop (k + 2) lines)))"
proof -
  have "SEP \<in> set (rev lines)"
    using len sep by (auto simp add: in_set_conv_nth)
  then obtain i where i: "index_of SEP (rev lines) = Some i"
    using index_of_None [of SEP "rev lines"] by (cases "index_of SEP (rev lines)") auto
  have k: "length lines - i - 1 = k"
    using last_sep_computed [OF i] last by (rule is_last_sep_unique)
  have klen: "k < length lines"
    using last by (simp add: is_last_sep_def)
  show ?thesis
    using len sep i k klen
    by (auto simp add: parse_record_def Let_def map_result_from_str series_lines_ok_def
        series_of_lines_def)
qed

lemma last_sep_exists:
  assumes "1 < length lines" and "lines ! 1 = SEP"
  shows "\<exists>k. is_last_sep lines k \<and> 1 \<le> k"
proof -
  have "SEP \<in> set (rev lines)"
    using assms by (auto simp add: in_set_conv_nth)
  then obtain i where i: "index_of SEP (rev lines) = Some i"
    using index_of_None [of SEP "rev lines"] by (cases "index_of SEP (rev lines)") auto
  let ?k = "length lines - i - 1"
  have last: "is_last_sep lines ?k"
    by (rule last_sep_computed [OF i])
  have "1 \<le> ?k"
  proof (rule ccontr)
    assume "\<not> 1 \<le> ?k"
    then have "?k = 0" by simp
    then have "lines ! 1 \<in> set (drop (Suc ?k) lines)"
      using assms(1) by (auto simp add: in_set_conv_nth intro!: exI [of _ 0])
    with last assms(2) show False by (simp add: is_last_sep_def)
  qed
  with last show ?thesis by blast
qed

text \<open>
  Claim C7, as stated: decoding fails exactly when the record has fewer than two lines,
  or line 1 is not the separator, or the last separator is at line 1 or at line 2, or a
  series line is not a result code. The record below has four lines, line 1 is the
  separator, its last separator is at line 3, and it has no series line; yet decoding
  fails, since \<^verbatim>\<open>lines[second_sep_idx + 1]\<close> (the start date) is out of range.
\<close>

theorem decode_truncated_counterexample:
  "splitlines (universal_newlines truncated_record) = [''t'', SEP, ''d'', SEP]
   \<and> 1 < length [''t'', SEP, ''d'', SEP]
   \<and> [''t'', SEP, ''d'', SEP] ! 1 = SEP
   \<and> is_last_sep [''t'', SEP, ''d'', SEP] 3
   \<and> drop (3 + 2) [''t'', SEP, ''d'', SEP] = []
   \<and> read_habit (Some [(''7'', truncated_record)]) ''7'' = Inl CorruptRecordError"
proof -
  have lines: "splitlines (universal_newlines truncated_record) = [''t'', SEP, ''d'', SEP]"
    by (simp add: truncated_record_def splitlines_def SEP_def LF_def CR_def is_line_boundary_def)
  have last: "is_last_sep [''t'', SEP, ''d'', SEP] 3"
    by (simp add: is_last_sep_def)
  have "parse_record [''t'', SEP, ''d'', SEP] = Inl CorruptRecordError"
    by (simp add: parse_record_def SEP_def)
  then show ?thesis
    using lines last by (simp add: read_habit_def)
qed

text \<open>
  Claim C7, amended. Let \<open>lines\<close> be the lines of the record. Decoding fails when there
  are fewer than two lines or line 1 is not the separator. Otherwise there is a last line
  \<open>k \<ge> 1\<close> equal to the separator, and decoding fails exactly when \<open>k = 1\<close> (no second
  separator), or \<open>k = 2\<close>, or no line follows line \<open>k\<close> (no start date), or the lines
  after the start date are neither one empty line nor all result codes. In every other
  case decoding succeeds: the title is line 0, the description is the lines from 2 up to
  \<open>k\<close> joined by \<^verbatim>\<open>\n\<close>, the start date is line \<open>k + 1\<close>, and the series is read from the
  lines after it.
\<close>

theorem read_habit_fails_iff:
  assumes "map_of files hid = Some text"
    and "lines = splitlines (universal_newlines text)"
  shows "(\<not> 1 < length lines \<or> lines ! 1 \<noteq> SEP \<longrightarrow>
            read_habit (Some files) hid = Inl CorruptRecordError)
       \<and> (1 < length lines \<and> lines ! 1 = SEP \<longrightarrow>
            (\<exists>k. is_last_sep lines k \<and> 1 \<le> k
               \<and> read_habit (Some files) hid
                   = (if k = 1 \<or> k = 2 \<or> Suc k = length lines
                         \<or> \<not> series_lines_ok (drop (k + 2) lines)
                      then Inl CorruptRecordError
                      else Inr (lines ! 0, join [LF] (drop 2 (take k lines)), lines ! Suc k,
                                series_of_lines (drop (k + 2) lines)))))"
proof -
  have read: "read_habit (Some files) hid = parse_record lines"
    using assms by (simp add: read_habit_def)
  have short: "parse_record lines = Inl CorruptRecordError"
    if "\<not> 1 < length lines \<or> lines ! 1 \<noteq> SEP"
    using that by (auto simp add: parse_record_def)
  have full: "\<exists>k. is_last_sep lines k \<and> 1 \<le> k
               \<and> parse_record lines
                   = (if k = 1 \<or> k = 2 \<or> Suc k = length lines
                         \<or> \<not> series_lines_ok (drop (k + 2) lines)
                      then Inl CorruptRecordError
                      else Inr (lines ! 0, join [LF] (drop 2 (take k lines)), lines ! Suc k,
                                series_of_lines (drop (k + 2) lines)))"
    if "1 < length lines" "lines ! 1 = SEP"
  proof -
    from last_sep_exists [OF that] obtain k where k: "is_last_sep lines k" "1 \<le> k"
      by blast
    from parse_record_at_last_sep [OF that k(1)] k show ?thesis
      by blast
  qed
  show ?thesis
    unfolding read using short full by blast
qed

theorem read_habit_fails_iff_witness:
  "map_of [(''0'', example_record)] ''0'' = Some example_record
   \<and> splitlines (universal_newlines example_record)
       = [''Read'', SEP, ''Ten pages'', SEP, ''2024-1-1'', ''+'', ''-'']
   \<and> is_last_sep [''Read'', SEP, ''Ten pages'', SEP, ''2024-1-1'', ''+'', ''-''] 3
   \<and> read_habit (Some [(''0'', example_record)]) ''0''
       = Inr (''Read'', ''Ten pages'', ''2024-1-1'', [GOOD, BAD])"
proof -
  let ?lines = "[''Read'', SEP, ''Ten pages'', SEP, ''2024-1-1'', ''+'', ''-'']"
  have stored: "map_of [(''0'', example_record)] ''0'' = Some example_record"
    by simp
  have lines: "?lines = splitlines (universal_newlines example_record)"
    by (simp add: example_record_def record_text_def splitlines_def SEP_def LF_def CR_def
        is_line_boundary_def)
  have last: "is_last_sep ?lines 3"
    by (simp add: is_last_sep_def SEP_def)
  have first: "1 < length ?lines \<and> ?lines ! 1 = SEP"
    by simp
  from read_habit_fails_iff [OF stored lines] first
  obtain k where k: "is_last_sep ?lines k"
    and r: "read_habit (Some [(''0'', example_record)]) ''0''
              = (if k = 1 \<or> k = 2 \<or> Suc k = length ?lines
                    \<or> \<not> series_lines_ok (drop (k + 2) ?lines)
                 then Inl CorruptRecordError
                 else Inr (?lines ! 0, join [LF] (drop 2 (take k ?lines)), ?lines ! Suc k,
                           series_of_lines (drop (k + 2) ?lines)))"
    by blast
  have "k = 3"
    using k last by (rule is_last_sep_unique)
  with r have "read_habit (Some [(''0'', example_record)]) ''0''
       = Inr (''Read'', ''Ten pages'', ''2024-1-1'', [GOOD, BAD])"
    by (simp add: series_lines_ok_def is_result_line_def series_of_lines_def result_of_line_def)
  then show ?thesis
    using stored lines last by simp
qed

section \<open>Writing a record and reading it back\<close>

















lemma write_all_encodable:
  "list_all (list_all enc) ts \<Longrightarrow> write_all enc ts = (concat ts, None)"
  by (induction ts) simp_all





section \<open>The two models of texts agree\<close>

lemma code_points_eq_iff: "(code_points s = code_points t) = (s = t)"
  by (simp add: code_points_def inj_map_eq_map inj_of_char)

lemma code_points_simps:
  "code_points [] = []" "code_points (c # s) = of_char c # code_points s"
  "code_points (s @ t) = code_points s @ code_points t"
  by (simp_all add: code_points_def)

lemma of_char_LF_CR: "(of_char LF :: nat) = LF_cp" "(of_char CR :: nat) = CR_cp"
  by (simp_all add: LF_def CR_def LF_cp_def CR_cp_def)

lemma of_char_LF: "((of_char c :: nat) = LF_cp) = (c = LF)"
  and of_char_CR: "((of_char c :: nat) = CR_cp) = (c = CR)"
  unfolding of_char_LF_CR [symmetric] by simp_all

lemma is_line_boundary_cp_of_char: "is_line_boundary_cp (of_char c) = is_line_boundary c"
proof -
  have eq: "((of_char c :: nat) = of_char d) = (c = d)" for d
    by simp
  have "(of_char c :: nat) < 256"
    by (rule nat_of_char_less_256)
  then have small: "(of_char c :: nat) \<noteq> 0x2028" "(of_char c :: nat) \<noteq> 0x2029"
    by linarith+
  have codes: "(of_char (CHR 0x0B) :: nat) = 0x0B" "(of_char (CHR 0x0C) :: nat) = 0x0C"
    "(of_char (CHR 0x1C) :: nat) = 0x1C" "(of_char (CHR 0x1D) :: nat) = 0x1D"
    "(of_char (CHR 0x1E) :: nat) = 0x1E" "(of_char (CHR 0x85) :: nat) = 0x85"
    by simp_all
  show ?thesis
    unfolding is_line_boundary_cp_def is_line_boundary_def of_char_LF of_char_CR
    using small eq [of "CHR 0x0B"] eq [of "CHR 0x0C"] eq [of "CHR 0x1C"] eq [of "CHR 0x1D"]
      eq [of "CHR 0x1E"] eq [of "CHR 0x85"]
    unfolding codes by simp
qed

lemma splitlines_from_cp_code_points:
  "splitlines_from_cp (code_points cur) (code_points s)
     = map code_points (splitlines_from cur s)"
  by (induction cur s rule: splitlines_from.induct)
    (simp_all add: code_points_simps is_line_boundary_cp_of_char of_char_LF of_char_CR
      code_points_eq_iff [of _ "[]", unfolded code_points_simps])

lemma splitlines_cp_code_points:
  "splitlines_cp (code_points s) = map code_points (splitlines s)"
  using splitlines_from_cp_code_points [of "[]" s]
  by (simp add: splitlines_cp_def splitlines_def code_points_simps)

lemma universal_newlines_cp_code_points:
  "universal_newlines_cp (code_points s) = code_points (universal_newlines s)"
proof (induction s rule: universal_newlines.induct)
  case 1
  then show ?case by (simp add: code_points_simps)
next
  case (2 c)
  then show ?case
    by (simp add: code_points_simps of_char_CR of_char_LF_CR)
next
  case (3 c d cs)
  then show ?case
    by (simp add: code_points_simps of_char_CR of_char_LF of_char_LF_CR)
qed

lemma join_cp_code_points:
  "join_cp (code_points sep) (map code_points xs) = code_points (join sep xs)"
  by (induction sep xs rule: join.induct) (simp_all add: code_points_simps)

lemma from_str_cp_code_points: "from_str_cp (code_points l) = from_str l"
  by (simp add: from_str_cp_def from_str_def code_points_eq_iff)

lemma map_result_from_str_cp_code_points:
  "map_result from_str_cp (map code_points ls) = map_result from_str ls"
  by (induction ls) (simp_all add: from_str_cp_code_points cong: sum.case_cong)

lemma index_of_code_points:
  "index_of (code_points x) (map code_points ys) = index_of x ys"
  by (induction ys) (simp_all add: code_points_eq_iff)

lemma parse_record_cp_code_points:
  "parse_record_cp (map code_points lines)
     = map_sum id record_code_points (parse_record lines)"
proof (cases "1 < length lines \<and> lines ! 1 = SEP")
  case False
  then show ?thesis
    by (auto simp add: parse_record_cp_def parse_record_def SEP_cp_def code_points_eq_iff)
next
  case True
  then have start: "1 < length (map code_points lines)"
    "map code_points lines ! 1 = SEP_cp"
    by (simp_all add: SEP_cp_def)
  have idx: "index_of SEP_cp (rev (map code_points lines)) = index_of SEP (rev lines)"
    unfolding SEP_cp_def rev_map by (rule index_of_code_points)
  show ?thesis
  proof (cases "index_of SEP (rev lines)")
    case None
    then show ?thesis
      using True start idx by (simp add: parse_record_cp_def parse_record_def)
  next
    case (Some i)
    define k where "k = length lines - i - 1"
    have lf: "[LF_cp] = code_points [LF]"
      by (simp add: code_points_simps of_char_LF_CR)
    have descr: "join_cp [LF_cp] (drop 2 (take k (map code_points lines)))
        = code_points (join [LF] (drop 2 (take k lines)))"
      unfolding lf take_map drop_map by (rule join_cp_code_points)
    have empty: "(map code_points ls = [[]]) = (ls = [[]])" for ls
      using code_points_eq_iff [of _ "[]"] by (cases ls) (auto simp add: code_points_simps)
    have tail: "drop (k + 2) (map code_points lines) = map code_points (drop (k + 2) lines)"
      by (simp add: drop_map)
    have zero: "map code_points lines ! 0 = code_points (lines ! 0)"
      using True by (intro nth_map) auto
    have wide: "parse_record_cp (map code_points lines)
        = (if k = 1 \<or> k = 2 \<or> \<not> k + 1 < length lines then Inl CorruptRecordError
           else if drop (k + 2) lines = [[]]
             then Inr (code_points (lines ! 0), code_points (join [LF] (drop 2 (take k lines))),
                       code_points (lines ! (k + 1)), [])
           else (case map_result from_str (drop (k + 2) lines) of
                   Inl e \<Rightarrow> Inl e
                 | Inr srs \<Rightarrow>
                     Inr (code_points (lines ! 0),
                          code_points (join [LF] (drop 2 (take k lines))),
                          code_points (lines ! (k + 1)), srs)))"
      unfolding parse_record_cp_def idx Some option.case Let_def
        k_def [symmetric] length_map descr tail empty map_result_from_str_cp_code_points
      using start True by (simp add: zero cong: sum.case_cong)
    have narrow: "parse_record lines
        = (if k = 1 \<or> k = 2 \<or> \<not> k + 1 < length lines then Inl CorruptRecordError
           else if drop (k + 2) lines = [[]]
             then Inr (lines ! 0, join [LF] (drop 2 (take k lines)), lines ! (k + 1), [])
           else (case map_result from_str (drop (k + 2) lines) of
                   Inl e \<Rightarrow> Inl e
                 | Inr srs \<Rightarrow>
                     Inr (lines ! 0, join [LF] (drop 2 (take k lines)), lines ! (k + 1), srs)))"
      unfolding parse_record_def Some option.case Let_def k_def [symmetric]
      using True by (simp cong: sum.case_cong)
    show ?thesis
      unfolding wide narrow
      by (simp add: record_code_points_def split: sum.splits)
  qed
qed

lemma map_of_code_points:
  "map_of (map (\<lambda>(name, text). (code_points name, code_points text)) files) (code_points hid)
     = map_option code_points (map_of files hid)"
  by (induction files) (auto simp add: code_points_eq_iff)

text \<open>
  Reading a record over code points, in a directory of texts with characters below 256,
  is reading it over these characters.
\<close>

lemma read_habit_cp_code_points:
  "read_habit_cp (storage_code_points st) (code_points hid)
     = map_sum id record_code_points (read_habit st hid)"
  by (cases st)
    (auto simp add: read_habit_cp_def read_habit_def storage_code_points_def map_of_code_points
      universal_newlines_cp_code_points splitlines_cp_code_points parse_record_cp_code_points
      split: option.splits)

lemma update_code_points:
  "AList.update (code_points hid) (code_points text)
       (map (\<lambda>(name, text). (code_points name, code_points text)) files)
     = map (\<lambda>(name, text). (code_points name, code_points text)) (AList.update hid text files)"
  by (induction files) (auto simp add: code_points_eq_iff)

text \<open>
  Writing a record over code points, with texts of characters below 256 and an encoding
  that has them all, is writing it over these characters.
\<close>

lemma write_habit_cp_code_points:
  assumes "list_all enc [0 ..< 256]"
  shows "write_habit_cp enc (storage_code_points st) (code_points hid) (code_points ttl)
           (code_points descr) (code_points sd) srs
         = (storage_code_points (write_habit st hid ttl descr sd srs), None)"
proof -
  have enc: "list_all enc (code_points s)" for s
    using assms nat_of_char_less_256 by (auto simp add: list_all_iff code_points_def)
  have lf: "[LF_cp] = code_points [LF]"
    by (simp add: code_points_simps of_char_LF_CR)
  have series: "join_cp [LF_cp] (map value_of_cp srs) = code_points (join [LF] (map value_of srs))"
  proof -
    have "map value_of_cp srs = map code_points (map value_of srs)"
      by (simp add: value_of_cp_def)
    then show ?thesis
      unfolding lf by (simp only: join_cp_code_points)
  qed
  have chunks: "[code_points ttl @ [LF_cp], SEP_cp @ [LF_cp], code_points descr @ [LF_cp],
        SEP_cp @ [LF_cp], code_points sd @ [LF_cp],
        join_cp [LF_cp] (map value_of_cp srs) @ [LF_cp]]
      = map code_points [ttl @ [LF], SEP @ [LF], descr @ [LF], SEP @ [LF], sd @ [LF],
          join [LF] (map value_of srs) @ [LF]]"
    by (simp only: series) (simp add: code_points_simps of_char_LF_CR SEP_cp_def)
  have all: "write_all enc (map code_points ts) = (code_points (concat ts), None)" for ts
  proof -
    have "list_all (list_all enc) (map code_points ts)"
      using enc by (simp add: list_all_iff)
    moreover have "concat (map code_points ts) = code_points (concat ts)"
      by (induction ts) (simp_all add: code_points_simps)
    ultimately show ?thesis
      by (simp add: write_all_encodable)
  qed
  have written: "write_all enc
      [code_points ttl @ [LF_cp], SEP_cp @ [LF_cp], code_points descr @ [LF_cp],
        SEP_cp @ [LF_cp], code_points sd @ [LF_cp],
        join_cp [LF_cp] (map value_of_cp srs) @ [LF_cp]]
      = (code_points (record_text ttl descr sd srs), None)"
    unfolding chunks all by (simp add: record_text_def)
  show ?thesis
    unfolding write_habit_cp_def written
    by (cases st) (simp_all add: storage_code_points_def write_habit_def
        update_code_points [where files = "[]", simplified] update_code_points)
qed

section \<open>Identifier allocation\<close>

lemma digit_val_digit_char: "d < 10 \<Longrightarrow> digit_val (digit_char d) = Some d"
proof -
  assume "d < 10"
  then have "d = 0 \<or> d = 1 \<or> d = 2 \<or> d = 3 \<or> d = 4 \<or> d = 5 \<or> d = 6
    \<or> d = 7 \<or> d = 8 \<or> d = 9"
    by arith
  then show ?thesis
    by (elim disjE) (simp_all add: digit_val_def digit_char_def)
qed

lemma digit_val_Some:
  assumes "digit_val c = Some v"
  shows "v < 10 \<and> c \<noteq> CHR ''_'' \<and> c \<noteq> CHR ''-'' \<and> c \<noteq> CHR ''+'' \<and> \<not> is_int_space c"
proof -
  from assms have "index_of c ''0123456789'' = Some v"
    by (simp only: digit_val_def)
  from index_of_Some [OF this] have len: "v < length ''0123456789''"
    and at: "''0123456789'' ! v = c"
    by blast+
  from len have v: "v < 10"
    by simp
  have "''0123456789'' ! v \<in> set ''0123456789''"
    by (rule nth_mem [OF len])
  then have c: "c \<in> set ''0123456789''"
    by (simp only: at)
  from c have "c \<noteq> CHR ''_'' \<and> c \<noteq> CHR ''-'' \<and> c \<noteq> CHR ''+'' \<and> \<not> is_int_space c"
    by (auto simp add: is_int_space_def LF_def CR_def)
  with v show ?thesis by simp
qed

lemma parse_digits_snoc:
  "all_digits s \<Longrightarrow> digit_val x = Some d \<Longrightarrow>
   parse_digits acc (s @ [x]) = map_option (\<lambda>a. 10 * a + d) (parse_digits acc s)"
proof (induction acc s rule: parse_digits.induct)
  case (1 acc)
  then show ?case by simp
next
  case (2 acc c)
  then obtain v where v: "digit_val c = Some v"
    by (auto simp add: all_digits_def)
  with digit_val_Some [OF v] 2 show ?case by simp
next
  case (3 acc c e cs)
  from "3.prems" obtain v where v: "digit_val c = Some v"
    by (auto simp add: all_digits_def)
  from "3.prems" have rest: "all_digits (e # cs)"
    by (simp add: all_digits_def)
  have c: "c \<noteq> CHR ''_''"
    using digit_val_Some [OF v] by simp
  show ?case
    using c v "3.IH"(2) [OF c v rest "3.prems"(2)] by simp
qed

lemma str_nat_digits: "all_digits (str_nat n) \<and> str_nat n \<noteq> []"
proof (induction n rule: str_nat.induct)
  case (1 n)
  show ?case
  proof (cases "n < 10")
    case True
    then show ?thesis
      using digit_val_digit_char [of n]
      by (subst (1 2) str_nat.simps) (simp add: all_digits_def)
  next
    case False
    have "n mod 10 < 10" by simp
    then have "digit_val (digit_char (n mod 10)) = Some (n mod 10)"
      by (rule digit_val_digit_char)
    then show ?thesis
      using False 1
      by (subst (1 2) str_nat.simps) (simp add: all_digits_def)
  qed
qed

lemma parse_unsigned_str_nat: "parse_unsigned (str_nat n) = Some n"
proof (induction n rule: str_nat.induct)
  case (1 n)
  show ?case
  proof (cases "n < 10")
    case True
    then show ?thesis
      using digit_val_digit_char [of n]
      by (subst str_nat.simps) (simp add: parse_unsigned_def)
  next
    case False
    obtain c cs where ccs: "str_nat (n div 10) = c # cs"
      using str_nat_digits [of "n div 10"] by (cases "str_nat (n div 10)") auto
    from str_nat_digits [of "n div 10"] ccs obtain v where v: "digit_val c = Some v"
      and cs: "all_digits cs"
      by (auto simp add: all_digits_def)
    have last: "digit_val (digit_char (n mod 10)) = Some (n mod 10)"
      by (rule digit_val_digit_char) simp
    from 1 [OF False] ccs v have "parse_digits v cs = Some (n div 10)"
      by (simp add: parse_unsigned_def)
    then have "parse_digits v (cs @ [digit_char (n mod 10)]) = Some (10 * (n div 10) + n mod 10)"
      using parse_digits_snoc [OF cs last, of v] by simp
    then have "parse_unsigned (str_nat (n div 10) @ [digit_char (n mod 10)]) = Some n"
      using ccs v by (simp add: parse_unsigned_def)
    then show ?thesis
      using False by (subst str_nat.simps) simp
  qed
qed

lemma strip_int_space_id:
  assumes "s \<noteq> []" and "\<not> is_int_space (hd s)" and "\<not> is_int_space (last s)"
  shows "strip_int_space s = s"
proof -
  have front: "dropWhile is_int_space s = s"
    using assms(2) by (simp add: dropWhile_eq_self_iff)
  have "dropWhile is_int_space (rev s) = rev s"
    using assms(3) by (simp add: dropWhile_eq_self_iff hd_rev)
  then show ?thesis
    using front by (simp add: strip_int_space_def)
qed

lemma all_digits_ends:
  assumes "all_digits s" and "s \<noteq> []"
  shows "\<exists>v. digit_val (hd s) = Some v" and "\<not> is_int_space (last s)"
proof -
  have "hd s \<in> set s" and "last s \<in> set s"
    using assms(2) by simp_all
  then have "digit_val (hd s) \<noteq> None" and l: "digit_val (last s) \<noteq> None"
    using assms(1) by (auto simp add: all_digits_def list_all_iff)
  then show "\<exists>v. digit_val (hd s) = Some v" by auto
  from l obtain w where "digit_val (last s) = Some w" by auto
  from digit_val_Some [OF this] show "\<not> is_int_space (last s)" by simp
qed

lemma py_int_py_str: "py_int (py_str i) = Some i"
proof -
  let ?s = "str_nat (nat \<bar>i\<bar>)"
  from str_nat_digits [of "nat \<bar>i\<bar>"] have digits: "all_digits ?s" and ne: "?s \<noteq> []"
    by simp_all
  from all_digits_ends [OF digits ne] obtain v where v: "digit_val (hd ?s) = Some v"
    and l: "\<not> is_int_space (last ?s)"
    by auto
  note hd_facts = digit_val_Some [OF v]
  obtain c cs where ccs: "?s = c # cs"
    using ne by (cases ?s) auto
  show ?thesis
  proof (cases "i < 0")
    case True
    then have str: "py_str i = CHR ''-'' # ?s"
      by (simp add: py_str_def abs_if)
    have "strip_int_space (CHR ''-'' # ?s) = CHR ''-'' # ?s"
      using l ne by (intro strip_int_space_id) (simp_all add: is_int_space_def LF_def CR_def)
    then show ?thesis
      using True parse_unsigned_str_nat [of "nat \<bar>i\<bar>"]
      by (simp add: py_int_def str)
  next
    case False
    then have str: "py_str i = ?s"
      by (simp add: py_str_def abs_if)
    have "strip_int_space ?s = ?s"
      using l ne hd_facts by (intro strip_int_space_id) simp_all
    then show ?thesis
      using False parse_unsigned_str_nat [of "nat \<bar>i\<bar>"] hd_facts ccs
      by (simp add: py_int_def str)
  qed
qed

lemma py_str_inject:
  assumes "py_str i = py_str j"
  shows "i = j"
proof -
  have "py_int (py_str i) = py_int (py_str j)"
    by (simp only: assms)
  then show ?thesis
    by (simp only: py_int_py_str option.inject)
qed

lemma map_result_py_int:
  "map_result (\<lambda>s. case py_int s of None \<Rightarrow> Inl ValueError | Some n \<Rightarrow> Inr n) (map py_str ids)
     = Inr ids"
  by (induction ids) (simp_all add: py_int_py_str)

lemma py_max_Max: "ids \<noteq> [] \<Longrightarrow> py_max ids = Some (Max (set ids))"
proof (cases ids)
  case Nil
  assume "ids \<noteq> []"
  with Nil show ?thesis by simp
next
  case (Cons x xs)
  then show ?thesis
    using Max.set_eq_fold [of x xs] by simp
qed

lemma find_latest_habit_id_names:
  assumes "map fst files = map py_str ids"
  shows "find_latest_habit_id (Some files)
           = Inr (py_str (if ids = [] then - 1 else Max (set ids)))"
proof (cases "ids = []")
  case True
  with assms show ?thesis
    by (simp add: find_latest_habit_id_def py_str_def digit_char_def str_nat.simps)
next
  case False
  with assms have "map fst files \<noteq> []" by auto
  then show ?thesis
    using assms False
    by (simp add: find_latest_habit_id_def map_result_py_int py_max_Max Let_def)
qed

lemma create_names:
  assumes "map fst files = map py_str ids"
  shows "create E (Some files) ttl descr sd_opt series_opt
           = Inr (\<lparr>habit_id = py_str (if ids = [] then 0 else Max (set ids) + 1),
                   title = ttl, description = descr,
                   start_date_str = (case sd_opt of None \<Rightarrow> today_str E | Some s \<Rightarrow> s),
                   series = (case series_opt of None \<Rightarrow> [] | Some srs \<Rightarrow> srs)\<rparr>,
                  Some files)"
  using find_latest_habit_id_names [OF assms]
  by (simp add: create_def py_int_py_str)

lemma create_no_directory:
  "create E None ttl descr sd_opt series_opt
     = Inr (\<lparr>habit_id = ''0'', title = ttl, description = descr,
             start_date_str = (case sd_opt of None \<Rightarrow> today_str E | Some s \<Rightarrow> s),
             series = (case series_opt of None \<Rightarrow> [] | Some srs \<Rightarrow> srs)\<rparr>,
            Some [])"
proof -
  have minus_one: "py_str (- 1) = ''-1''" and zero: "py_str 0 = ''0''"
    by (simp_all add: py_str_def digit_char_def str_nat.simps)
  have "py_int ''-1'' = Some (- 1)"
    using py_int_py_str [of "- 1"] by (simp only: minus_one)
  then show ?thesis
    by (simp add: create_def find_latest_habit_id_def zero)
qed

lemma remove_file_names:
  assumes "map fst files = map py_str ids" and "r \<in> set ids"
  shows "\<exists>files'. remove_file (Some files) (py_str r) = Inr (Some files')
           \<and> map fst files' = map py_str (filter (\<lambda>i. i \<noteq> r) ids)"
proof -
  have "py_str r \<in> set (map fst files)"
    using assms by simp
  then have rem: "remove_file (Some files) (py_str r)
      = Inr (Some (AList.delete (py_str r) files))"
    by (simp add: remove_file_def)
  have "map fst (AList.delete (py_str r) files)
      = filter (\<lambda>k. k \<noteq> py_str r) (map fst files)"
    by (simp add: delete_keys removeAll_filter_not_eq) metis
  also have "\<dots> = map py_str (filter (\<lambda>i. i \<noteq> r) ids)"
    unfolding assms(1) by (induction ids) (auto dest: py_str_inject)
  finally show ?thesis
    using rem by blast
qed

lemma Max_without_smaller:
  fixes r :: int
  assumes "i \<in> set ids" and "r < i"
  shows "Max (set (filter (\<lambda>j. j \<noteq> r) ids)) = Max (set ids)"
proof (rule Max_eqI)
  show "finite (set (filter (\<lambda>j. j \<noteq> r) ids))"
    by simp
  show "y \<le> Max (set ids)" if "y \<in> set (filter (\<lambda>j. j \<noteq> r) ids)" for y
    using that by simp
  have "Max (set ids) \<in> set ids"
    using assms(1) by (intro Max_in) auto
  moreover have "i \<le> Max (set ids)"
    using assms(1) by simp
  ultimately show "Max (set ids) \<in> set (filter (\<lambda>j. j \<noteq> r) ids)"
    using assms(2) by simp
qed

text \<open>
  Claim C8, as stated: the id of a removed habit is never used again. \<^verbatim>\<open>create\<close> takes
  one more than the largest stored id, so after the habit with the largest id is removed
  its id is given out again: with the habits 0, 1 and 2 stored and habit 2 removed, the
  next habit made gets the id 2.
\<close>

theorem removed_id_reused_counterexample:
  "stored_ids three_habits = Some [''0'', ''1'', ''2'']
   \<and> next_id_after_removal three_habits ''2'' = Some ''2''"
  by code_simp

text \<open>
  Claim C8, amended. When the stored files are named by the ids \<open>ids\<close>, \<^verbatim>\<open>create\<close>
  returns a habit whose id is the largest stored id plus one, and 0 when no habit is
  stored or the directory is missing; the storage is left as it is, but for the directory
  being made. The id of a removed habit is not given out again as long as a habit with a
  larger id stays stored: after such a removal the next id is still the largest id plus
  one.
\<close>

theorem create_allocates_next_id:
  assumes "map fst files = map py_str ids"
  shows "create E (Some files) ttl descr sd_opt series_opt
           = Inr (\<lparr>habit_id = py_str (if ids = [] then 0 else Max (set ids) + 1),
                   title = ttl, description = descr,
                   start_date_str = (case sd_opt of None \<Rightarrow> today_str E | Some s \<Rightarrow> s),
                   series = (case series_opt of None \<Rightarrow> [] | Some srs \<Rightarrow> srs)\<rparr>,
                  Some files)
       \<and> create E None ttl descr sd_opt series_opt
           = Inr (\<lparr>habit_id = ''0'', title = ttl, description = descr,
                   start_date_str = (case sd_opt of None \<Rightarrow> today_str E | Some s \<Rightarrow> s),
                   series = (case series_opt of None \<Rightarrow> [] | Some srs \<Rightarrow> srs)\<rparr>,
                  Some [])
       \<and> (\<forall>r \<in> set ids. \<forall>h. habit_id h = py_str r \<and> (\<exists>i \<in> set ids. r < i) \<longrightarrow>
            (\<exists>files'. remove (Some files) h None = Inr (Some files')
               \<and> map fst files' = map py_str (filter (\<lambda>i. i \<noteq> r) ids)
               \<and> create E (Some files') ttl descr sd_opt series_opt
                   = Inr (\<lparr>habit_id = py_str (Max (set ids) + 1),
                           title = ttl, description = descr,
                           start_date_str = (case sd_opt of None \<Rightarrow> today_str E | Some s \<Rightarrow> s),
                           series = (case series_opt of None \<Rightarrow> [] | Some srs \<Rightarrow> srs)\<rparr>,
                          Some files')
               \<and> py_str (Max (set ids) + 1) \<noteq> py_str r))"
proof -
  have removal: "\<exists>files'. remove (Some files) h None = Inr (Some files')
               \<and> map fst files' = map py_str (filter (\<lambda>i. i \<noteq> r) ids)
               \<and> create E (Some files') ttl descr sd_opt series_opt
                   = Inr (\<lparr>habit_id = py_str (Max (set ids) + 1),
                           title = ttl, description = descr,
                           start_date_str = (case sd_opt of None \<Rightarrow> today_str E | Some s \<Rightarrow> s),
                           series = (case series_opt of None \<Rightarrow> [] | Some srs \<Rightarrow> srs)\<rparr>,
                          Some files')
               \<and> py_str (Max (set ids) + 1) \<noteq> py_str r"
    if r: "r \<in> set ids" and h: "habit_id h = py_str r" and i: "i \<in> set ids" "r < i"
    for r h i
  proof -
    from remove_file_names [OF assms r] obtain files'
      where rem: "remove_file (Some files) (py_str r) = Inr (Some files')"
        and names: "map fst files' = map py_str (filter (\<lambda>i. i \<noteq> r) ids)"
      by blast
    have rest: "filter (\<lambda>j. j \<noteq> r) ids \<noteq> []"
      using i by (auto simp add: filter_empty_conv)
    have "i \<le> Max (set ids)"
      using i(1) by simp
    then have "Max (set ids) + 1 \<noteq> r"
      using i(2) by simp
    then have fresh: "py_str (Max (set ids) + 1) \<noteq> py_str r"
      by (auto dest: py_str_inject)
    show ?thesis
      using rem names create_names [OF names, of E ttl descr sd_opt series_opt] rest
        Max_without_smaller [OF i] fresh h
      by (simp add: remove_def)
  qed
  show ?thesis
    using create_names [OF assms] create_no_directory removal by blast
qed

theorem create_allocates_next_id_witness:
  "map fst three_files = map py_str [0, 1, 2]
   \<and> create example_env (Some three_files) ''Write'' [] None None
       = Inr (\<lparr>habit_id = ''3'', title = ''Write'', description = [],
               start_date_str = ''2024-1-4'', series = []\<rparr>, Some three_files)
   \<and> create example_env None ''Write'' [] None None
       = Inr (\<lparr>habit_id = ''0'', title = ''Write'', description = [],
               start_date_str = ''2024-1-4'', series = []\<rparr>, Some [])
   \<and> remove (Some three_files) ((example_habit [])\<lparr>habit_id := ''1''\<rparr>) None
       = Inr (Some [(''0'', []), (''2'', [])])
   \<and> create example_env (Some [(''0'', []), (''2'', [])]) ''Write'' [] None None
       = Inr (\<lparr>habit_id = ''3'', title = ''Write'', description = [],
               start_date_str = ''2024-1-4'', series = []\<rparr>, Some [(''0'', []), (''2'', [])])"
proof -
  have strs: "py_str 0 = ''0''" "py_str 1 = ''1''" "py_str 2 = ''2''" "py_str 3 = ''3''"
    by (simp_all add: py_str_def digit_char_def str_nat.simps)
  have names: "map fst three_files = map py_str [0, 1, 2]"
    by (simp add: three_files_def strs)
  have rem: "remove (Some three_files) ((example_habit [])\<lparr>habit_id := ''1''\<rparr>) None
       = Inr (Some [(''0'', []), (''2'', [])])"
    by (simp add: remove_def remove_file_def three_files_def example_habit_def AList.delete_eq)
  have today: "today_str example_env = ''2024-1-4''"
    by (simp add: example_env_def)
  have id1: "habit_id ((example_habit [])\<lparr>habit_id := ''1''\<rparr>) = py_str 1"
    by (simp add: strs)
  note inst = create_allocates_next_id [OF names, of example_env "''Write''" "[]" None None]
  from inst have first: "create example_env (Some three_files) ''Write'' [] None None
       = Inr (\<lparr>habit_id = ''3'', title = ''Write'', description = [],
               start_date_str = ''2024-1-4'', series = []\<rparr>, Some three_files)"
    and none: "create example_env None ''Write'' [] None None
       = Inr (\<lparr>habit_id = ''0'', title = ''Write'', description = [],
               start_date_str = ''2024-1-4'', series = []\<rparr>, Some [])"
    by (simp_all add: strs today)
  have "(1::int) \<in> set [0, 1, 2]" and "\<exists>i \<in> set [0, 1, 2]. (1::int) < i"
    by simp_all
  with inst [THEN conjunct2, THEN conjunct2, rule_format, of 1 "(example_habit [])\<lparr>habit_id := ''1''\<rparr>"] id1
  obtain files' where "remove (Some three_files) ((example_habit [])\<lparr>habit_id := ''1''\<rparr>) None
        = Inr (Some files')"
    and "create example_env (Some files') ''Write'' [] None None
        = Inr (\<lparr>habit_id = py_str (Max (set [0, 1, 2]) + 1), title = ''Write'', description = [],
               start_date_str = (case None of None \<Rightarrow> today_str example_env | Some s \<Rightarrow> s),
               series = (case None of None \<Rightarrow> [] | Some srs \<Rightarrow> srs)\<rparr>, Some files')"
    by blast
  with rem
  have "create example_env (Some [(''0'', []), (''2'', [])]) ''Write'' [] None None
       = Inr (\<lparr>habit_id = ''3'', title = ''Write'', description = [],
               start_date_str = ''2024-1-4'', series = []\<rparr>, Some [(''0'', []), (''2'', [])])"
    by (simp add: strs today)
  then show ?thesis
    using names first none rem by simp
qed

section \<open>Lookup by title\<close>

lemma find_habit_id_loop_matches:
  assumes "list_all (\<lambda>hid. stored_title st hid \<noteq> None) ids"
  shows "find_habit_id_loop st ttl ids desired
           = (case filter (\<lambda>hid. map_option lower (stored_title st hid) = Some (lower ttl)) ids of
                [] \<Rightarrow> Inr desired
              | [hid] \<Rightarrow> (if desired = None then Inr (Some hid) else Inl AmbiguousTitleError)
              | _ \<Rightarrow> Inl AmbiguousTitleError)"
  using assms
proof (induction ids arbitrary: desired)
  case Nil
  then show ?case by simp
next
  case (Cons hid ids)
  from Cons.prems obtain rec where rec: "read_habit st hid = Inr rec"
    by (cases "read_habit st hid") (auto simp add: stored_title_def)
  obtain t d s srs where fields: "rec = (t, d, s, srs)"
    by (cases rec) auto
  have ttl: "stored_title st hid = Some t"
    using rec fields by (simp add: stored_title_def)
  from Cons.prems have rest: "list_all (\<lambda>hid. stored_title st hid \<noteq> None) ids"
    by simp
  show ?case
  proof (cases "lower t = lower ttl")
    case True
    then show ?thesis
      using rec fields ttl Cons.IH [OF rest, of "Some hid"]
      by (cases desired) (auto split: list.splits)
  next
    case False
    then show ?thesis
      using rec fields ttl Cons.IH [OF rest, of desired] by simp
  qed
qed

lemma find_habit_id_matches:
  assumes "all_readable st"
  shows "find_habit_id st ttl
           = (case matching_ids st ttl of
                [] \<Rightarrow> Inl NotFoundError
              | [hid] \<Rightarrow> Inr hid
              | _ \<Rightarrow> Inl AmbiguousTitleError)"
proof (cases st)
  case None
  then show ?thesis
    by (simp add: find_habit_id_def matching_ids_def listing_def)
next
  case (Some files)
  have "list_all (\<lambda>hid. stored_title st hid \<noteq> None) (map fst files)"
    using assms by (simp add: all_readable_def listing_def Some)
  from find_habit_id_loop_matches [OF this, of ttl None] show ?thesis
    by (simp add: find_habit_id_def matching_ids_def listing_def Some split: list.splits)
qed

lemma matching_id_title:
  assumes "hid \<in> set (matching_ids st ttl)"
  shows "\<exists>t d s srs. read_habit st hid = Inr (t, d, s, srs) \<and> lower t = lower ttl"
proof -
  from assms have "map_option lower (stored_title st hid) = Some (lower ttl)"
    by (simp add: matching_ids_def)
  then obtain t where "stored_title st hid = Some t" and "lower t = lower ttl"
    by auto
  then show ?thesis
    by (cases "read_habit st hid") (auto simp add: stored_title_def)
qed

text \<open>
  Claim C9. For every collection of stored habits (a directory all of whose records can
  be read, or no directory at all) and every query title, the lookup by title returns the habit whose title
  matches without regard to case when exactly one stored title matches, fails with
  \<open>NotFoundError\<close> when none matches, and fails with \<open>AmbiguousTitleError\<close> when more
  than one matches.
\<close>

theorem find_by_title:
  assumes "all_readable st"
  shows "(matching_ids st ttl = [] \<longrightarrow>
            find st None (Some ttl) = Inl NotFoundError)
       \<and> (\<forall>hid. matching_ids st ttl = [hid] \<longrightarrow>
            (\<exists>t d s srs. read_habit st hid = Inr (t, d, s, srs)
               \<and> lower t = lower ttl
               \<and> find st None (Some ttl)
                   = Inr \<lparr>habit_id = hid, title = t, description = d,
                          start_date_str = s, series = srs\<rparr>))
       \<and> (1 < length (matching_ids st ttl) \<longrightarrow>
            find st None (Some ttl) = Inl AmbiguousTitleError)"
proof -
  note id = find_habit_id_matches [OF assms, of ttl]
  have none: "find st None (Some ttl) = Inl NotFoundError"
    if "matching_ids st ttl = []"
    using id that by (simp add: find_def)
  have one: "\<exists>t d s srs. read_habit st hid = Inr (t, d, s, srs)
               \<and> lower t = lower ttl
               \<and> find st None (Some ttl)
                   = Inr \<lparr>habit_id = hid, title = t, description = d,
                          start_date_str = s, series = srs\<rparr>"
    if "matching_ids st ttl = [hid]" for hid
  proof -
    from that have "hid \<in> set (matching_ids st ttl)"
      by simp
    from matching_id_title [OF this] obtain t d s srs
      where "read_habit st hid = Inr (t, d, s, srs)" and "lower t = lower ttl"
      by blast
    then show ?thesis
      using id that by (simp add: find_def)
  qed
  have many: "find st None (Some ttl) = Inl AmbiguousTitleError"
    if "1 < length (matching_ids st ttl)"
  proof -
    from that obtain a b rest where "matching_ids st ttl = a # b # rest"
      by (cases "matching_ids st ttl" rule: list.exhaust [case_names Nil Cons])
        (auto simp add: neq_Nil_conv)
    then show ?thesis
      using id by (simp add: find_def)
  qed
  show ?thesis
    using none one many by blast
qed

theorem find_by_title_witness:
  "all_readable titled_store
   \<and> matching_ids titled_store ''Swim'' = []
   \<and> find titled_store None (Some ''Swim'') = Inl NotFoundError
   \<and> matching_ids titled_store ''WALK'' = [''2'']
   \<and> find titled_store None (Some ''WALK'')
       = Inr ((example_habit [BAD])\<lparr>habit_id := ''2'', title := ''Walk''\<rparr>)
   \<and> matching_ids titled_store ''read'' = [''0'', ''1'']
   \<and> find titled_store None (Some ''read'') = Inl AmbiguousTitleError"
proof -
  have readable: "all_readable titled_store"
    by code_simp
  have m0: "matching_ids titled_store ''Swim'' = []"
    and m1: "matching_ids titled_store ''WALK'' = [''2'']"
    and m2: "matching_ids titled_store ''read'' = [''0'', ''1'']"
    by code_simp+
  have walk: "read_habit titled_store ''2'' = Inr (''Walk'', ''Ten pages'', ''2024-1-1'', [BAD])"
    by code_simp
  from find_by_title [OF readable, of "''Swim''"] m0
  have f0: "find titled_store None (Some ''Swim'') = Inl NotFoundError"
    by simp
  from find_by_title [OF readable, of "''WALK''"] m1 walk
  have f1: "find titled_store None (Some ''WALK'')
       = Inr ((example_habit [BAD])\<lparr>habit_id := ''2'', title := ''Walk''\<rparr>)"
    by (simp add: example_habit_def)
  from find_by_title [OF readable, of "''read''"] m2
  have f2: "find titled_store None (Some ''read'') = Inl AmbiguousTitleError"
    by simp
  show ?thesis
    using readable m0 m1 m2 f0 f1 f2 by simp
qed

end
